theory Spec2Isabelle
  imports Main "HOL-Library.Sublist"
begin

section \<open>Instance/Window Manager (src/src/stores/useAppStore.ts)\<close>

text \<open>
  Values of TypeScript type \<open>unknown\<close> that reach the store as \<open>initialData\<close>.
  The store only ever tests them for truthiness (\<open>if (initialData)\<close>).
\<close>

datatype jsData =
    JUndefined
  | JNull
  | JBoolean bool
  | JNumber int
  | JString string
  | JObject "(string \<times> string) list"

fun truthy :: "jsData \<Rightarrow> bool" where
  "truthy JUndefined = False"
| "truthy JNull = False"
| "truthy (JBoolean b) = b"
| "truthy (JNumber n) = (n \<noteq> 0)"
| "truthy (JString s) = (s \<noteq> [])"
| "truthy (JObject _) = True"

text \<open>
  \<open>AppInstance extends AppState\<close>. The instance id is the decimal rendering of a
  counter (\<open>nextNum.toString()\<close>) and is kept here as that number. \<open>isLoading\<close> and
  \<open>isMinimized\<close> are optional in the source and only ever read through truthiness
  tests, so \<open>undefined\<close> is \<open>False\<close>.
\<close>

record AppInstance =
  instanceId :: nat
  appId :: string
  isOpen :: bool
  isForeground :: bool
  isLoading :: bool
  isMinimized :: bool
  initialData :: jsData
  title :: "string option"
  displayTitle :: "string option"
  position :: "int \<times> int"
  size' :: "int \<times> int"
  createdAt :: int

text \<open>
  The object \<open>instances: Record<string, AppInstance>\<close>, as the list of its values in
  enumeration order. Every instance is stored under its own \<open>instanceId\<close>:
  \<open>createAppInstance\<close> is the only writer of a new key and every other write spreads
  the instance already there. The keys are integer-like, so a JavaScript object
  enumerates them in ascending numeric order.
\<close>

type_synonym instance_table = "AppInstance list"

definition getInstance :: "instance_table \<Rightarrow> nat \<Rightarrow> AppInstance option" where
  "getInstance tbl k = find (\<lambda>i. instanceId i = k) tbl"

fun insertInstance :: "AppInstance \<Rightarrow> instance_table \<Rightarrow> instance_table" where
  "insertInstance v [] = [v]"
| "insertInstance v (i # tbl) =
     (if instanceId v < instanceId i then v # i # tbl else i # insertInstance v tbl)"

fun replaceInstance :: "AppInstance \<Rightarrow> instance_table \<Rightarrow> instance_table" where
  "replaceInstance v [] = []"
| "replaceInstance v (i # tbl) =
     (if instanceId i = instanceId v then v # tbl else i # replaceInstance v tbl)"

text \<open>
  \<open>instances[id] = v\<close>: an existing key keeps its place, a new one is enumerated at its
  numeric position.
\<close>

definition setInstance :: "AppInstance \<Rightarrow> instance_table \<Rightarrow> instance_table" where
  "setInstance v tbl =
     (if getInstance tbl (instanceId v) \<noteq> None then replaceInstance v tbl
      else insertInstance v tbl)"

definition deleteInstance :: "nat \<Rightarrow> instance_table \<Rightarrow> instance_table" where
  "deleteInstance k tbl = filter (\<lambda>i. instanceId i \<noteq> k) tbl"

text \<open>The slice of \<open>AppStoreState\<close> that the instance operations read and write.\<close>

record AppStoreState =
  instances :: instance_table
  instanceOrder :: "nat list"
  foregroundInstanceId :: "nat option"
  nextInstanceId :: nat

definition initialAppStore :: AppStoreState where
  "initialAppStore =
     \<lparr>instances = [], instanceOrder = [], foregroundInstanceId = None, nextInstanceId = 0\<rparr>"

text \<open>
  What an operation reads from outside the store: \<open>window.innerWidth\<close> (\<open>None\<close> when
  \<open>window\<close> is undefined), \<open>getWindowConfig(appId).defaultSize\<close> (declared in
  \<open>@/config/appRegistry\<close>, taken as a parameter) and \<open>Date.now()\<close>.
\<close>

record Env =
  innerWidth :: "int option"
  defaultSize :: "string \<Rightarrow> int \<times> int"
  now :: int

definition createAppInstance ::
  "Env \<Rightarrow> AppStoreState \<Rightarrow> string \<Rightarrow> jsData \<Rightarrow> string option \<Rightarrow> AppStoreState \<times> nat" where
  "createAppInstance env state app data ttl =
    (let nextNum = nextInstanceId state + 1;
         createdId = nextNum;
         openInstances = int (length (instanceOrder state));
         baseOffset = 16;
         offsetStep = 32;
         isMobile = (case innerWidth env of None \<Rightarrow> False | Some w \<Rightarrow> w < 768);
         pos = (if isMobile then 0 else baseOffset + openInstances * offsetStep,
                if isMobile then 28 + openInstances * offsetStep else 40 + openInstances * 20);
         sz = (case innerWidth env of
                 None \<Rightarrow> defaultSize env app
               | Some w \<Rightarrow> if w < 768 then (w, snd (defaultSize env app))
                          else defaultSize env app);
         isLazy = (app \<noteq> ''finder'');
         created = \<lparr>instanceId = createdId, appId = app, isOpen = True,
                    isForeground = \<not> isLazy, isLoading = isLazy, isMinimized = False,
                    initialData = data, title = ttl, displayTitle = None,
                    position = pos, size' = sz, createdAt = now env\<rparr>;
         insts = setInstance created (instances state);
         insts' = (if \<not> isLazy
                   then map (\<lambda>i. if instanceId i \<noteq> createdId
                                   then i\<lparr>isForeground := False\<rparr> else i) insts
                   else insts);
         order = filter (\<lambda>k. k \<noteq> createdId) (instanceOrder state) @ [createdId]
     in (state\<lparr>instances := insts', instanceOrder := order,
               foregroundInstanceId :=
                 (if isLazy then foregroundInstanceId state else Some createdId),
               nextInstanceId := nextNum\<rparr>,
         createdId))"

definition markInstanceAsLoaded :: "AppStoreState \<Rightarrow> nat \<Rightarrow> AppStoreState" where
  "markInstanceAsLoaded state k =
    (case getInstance (instances state) k of
       None \<Rightarrow> state
     | Some inst \<Rightarrow>
         if \<not> isLoading inst then state
         else
           let insts = map (\<lambda>i. i\<lparr>isForeground := (instanceId i = k)\<rparr>) (instances state);
               insts' = setInstance (inst\<lparr>isLoading := False, isForeground := True\<rparr>) insts;
               order = filter (\<lambda>j. j \<noteq> k) (instanceOrder state) @ [k]
           in state\<lparr>instances := insts', instanceOrder := order,
                    foregroundInstanceId := Some k\<rparr>)"

text \<open>
  The backwards \<open>for\<close> loop of \<open>closeAppInstance\<close>: the last id of \<open>order\<close> whose
  instance belongs to the same app and is open.
\<close>

definition lastSameApp :: "instance_table \<Rightarrow> string \<Rightarrow> nat list \<Rightarrow> nat option" where
  "lastSameApp insts app order =
     find (\<lambda>j. case getInstance insts j of
                  None \<Rightarrow> False
                | Some i \<Rightarrow> appId i = app \<and> isOpen i) (rev order)"

definition closeAppInstance :: "AppStoreState \<Rightarrow> nat \<Rightarrow> AppStoreState" where
  "closeAppInstance state k =
    (case getInstance (instances state) k of
       None \<Rightarrow> state
     | Some inst \<Rightarrow>
         if \<not> isOpen inst then state
         else
           let insts = deleteInstance k (instances state);
               order = filter (\<lambda>j. j \<noteq> k) (instanceOrder state);
               nextForeground =
                 (case lastSameApp insts (appId inst) order of
                    Some j \<Rightarrow> Some j
                  | None \<Rightarrow> if order \<noteq> [] then Some (last order) else None);
               insts' = map (\<lambda>i. i\<lparr>isForeground := (Some (instanceId i) = nextForeground)\<rparr>) insts;
               order' = (case nextForeground of
                           None \<Rightarrow> order
                         | Some j \<Rightarrow> filter (\<lambda>l. l \<noteq> j) order @ [j])
           in state\<lparr>instances := insts', instanceOrder := order',
                    foregroundInstanceId := nextForeground\<rparr>)"

text \<open>\<open>None\<close> is the falsy argument (\<open>null\<close> or the empty string): blur everything.\<close>

definition bringInstanceToForeground :: "AppStoreState \<Rightarrow> nat option \<Rightarrow> AppStoreState" where
  "bringInstanceToForeground state arg =
    (case arg of
       None \<Rightarrow>
         state\<lparr>instances := map (\<lambda>i. i\<lparr>isForeground := False\<rparr>) (instances state),
               foregroundInstanceId := None\<rparr>
     | Some k \<Rightarrow>
         (case getInstance (instances state) k of
            None \<Rightarrow> state
          | Some _ \<Rightarrow>
              state\<lparr>instances :=
                      map (\<lambda>i. i\<lparr>isForeground := (instanceId i = k)\<rparr>) (instances state),
                    instanceOrder := filter (\<lambda>j. j \<noteq> k) (instanceOrder state) @ [k],
                    foregroundInstanceId := Some k\<rparr>))"

text \<open>
  The backwards \<open>for\<close> loop of \<open>minimizeInstance\<close>: the last id of the order, other than
  the minimized one, whose instance is open and not minimized.
\<close>

definition lastNonMinimized :: "instance_table \<Rightarrow> nat \<Rightarrow> nat list \<Rightarrow> nat option" where
  "lastNonMinimized insts k order =
     find (\<lambda>j. j \<noteq> k \<and> (case getInstance insts j of
                             None \<Rightarrow> False
                           | Some i \<Rightarrow> isOpen i \<and> \<not> isMinimized i)) (rev order)"

definition minimizeInstance :: "AppStoreState \<Rightarrow> nat \<Rightarrow> AppStoreState" where
  "minimizeInstance state k =
    (case getInstance (instances state) k of
       None \<Rightarrow> state
     | Some inst \<Rightarrow>
         if isMinimized inst then state
         else
           let insts = setInstance (inst\<lparr>isMinimized := True, isForeground := False\<rparr>)
                         (instances state);
               nextForeground = lastNonMinimized insts k (instanceOrder state);
               insts' = (case nextForeground of
                           None \<Rightarrow> insts
                         | Some j \<Rightarrow>
                             (case getInstance insts j of
                                None \<Rightarrow> insts
                              | Some i \<Rightarrow> setInstance (i\<lparr>isForeground := True\<rparr>) insts))
           in state\<lparr>instances := insts', foregroundInstanceId := nextForeground\<rparr>)"

definition restoreInstance :: "AppStoreState \<Rightarrow> nat \<Rightarrow> AppStoreState" where
  "restoreInstance state k =
    (case getInstance (instances state) k of
       None \<Rightarrow> state
     | Some inst \<Rightarrow>
         if \<not> isMinimized inst then state
         else
           let insts = map (\<lambda>i. i\<lparr>isForeground := False\<rparr>) (instances state);
               insts' = setInstance (inst\<lparr>isMinimized := False, isForeground := True\<rparr>) insts;
               order = filter (\<lambda>j. j \<noteq> k) (instanceOrder state) @ [k]
           in state\<lparr>instances := insts', instanceOrder := order,
                    foregroundInstanceId := Some k\<rparr>)"

text \<open>
  \<open>set((s) => ({instances: {...s.instances, [id]: {...s.instances[id], initialData}}}))\<close>
  for an id that was just read from the table.
\<close>

definition setInitialData :: "AppStoreState \<Rightarrow> nat \<Rightarrow> jsData \<Rightarrow> AppStoreState" where
  "setInitialData state k data =
     state\<lparr>instances :=
             map (\<lambda>i. if instanceId i = k then i\<lparr>initialData := data\<rparr> else i) (instances state)\<rparr>"

text \<open>
  The \<open>forEach\<close> of \<open>launchApp\<close> over the snapshot \<open>appInstances\<close>: each minimized one is
  restored in the live store, and the last such id is remembered.
\<close>

fun restoreAll :: "AppInstance list \<Rightarrow> AppStoreState \<times> nat option \<Rightarrow> AppStoreState \<times> nat option" where
  "restoreAll [] acc = acc"
| "restoreAll (inst # rest) (state, lastRestoredId) =
     (if isMinimized inst
      then restoreAll rest (restoreInstance state (instanceId inst), Some (instanceId inst))
      else restoreAll rest (state, lastRestoredId))"

definition launchApp ::
  "Env \<Rightarrow> AppStoreState \<Rightarrow> string \<Rightarrow> jsData \<Rightarrow> string option \<Rightarrow> bool \<Rightarrow> AppStoreState \<times> nat" where
  "launchApp env state app data ttl multiWindow =
    (let appInstances = filter (\<lambda>i. appId i = app \<and> isOpen i) (instances state);
         restored = (if appInstances \<noteq> [] \<and> list_all isMinimized appInstances
                     then restoreAll appInstances (state, None)
                     else (state, None))
     in case snd restored of
          Some lastRestoredId \<Rightarrow>
            (let s1 = bringInstanceToForeground (fst restored) (Some lastRestoredId);
                 s2 = (if truthy data then setInitialData s1 lastRestoredId data else s1)
             in (s2, lastRestoredId))
        | None \<Rightarrow>
            (let supportsMultiWindow =
                   (multiWindow \<or> app = ''textedit'' \<or> app = ''finder'' \<or> False);
                 existing = (if \<not> supportsMultiWindow
                             then find (\<lambda>i. appId i = app \<and> isOpen i) (instances state)
                             else None)
             in case existing of
                  Some e \<Rightarrow>
                    (let s1 = bringInstanceToForeground state (Some (instanceId e));
                         s2 = (if truthy data then setInitialData s1 (instanceId e) data else s1)
                     in (s2, instanceId e))
                | None \<Rightarrow> createAppInstance env state app data ttl))"

text \<open>The operations of the window manager, as a script run from a store state.\<close>

datatype AppOp =
    CreateAppInstance string jsData "string option"
  | LaunchApp string jsData "string option" bool
  | BringInstanceToForeground "nat option"
  | MarkInstanceAsLoaded nat
  | MinimizeInstance nat
  | RestoreInstance nat
  | CloseAppInstance nat

fun applyOp :: "Env \<Rightarrow> AppStoreState \<Rightarrow> AppOp \<Rightarrow> AppStoreState" where
  "applyOp env s (CreateAppInstance app d t) = fst (createAppInstance env s app d t)"
| "applyOp env s (LaunchApp app d t m) = fst (launchApp env s app d t m)"
| "applyOp env s (BringInstanceToForeground k) = bringInstanceToForeground s k"
| "applyOp env s (MarkInstanceAsLoaded k) = markInstanceAsLoaded s k"
| "applyOp env s (MinimizeInstance k) = minimizeInstance s k"
| "applyOp env s (RestoreInstance k) = restoreInstance s k"
| "applyOp env s (CloseAppInstance k) = closeAppInstance s k"

definition runOps :: "Env \<Rightarrow> AppStoreState \<Rightarrow> AppOp list \<Rightarrow> AppStoreState" where
  "runOps env s ops = foldl (applyOp env) s ops"

text \<open>P6, foreground exclusivity, as a predicate on a store state.\<close>

definition foregroundExclusive :: "AppStoreState \<Rightarrow> bool" where
  "foregroundExclusive s =
     (length (filter isForeground (instances s)) \<le> 1 \<and>
      list_all (\<lambda>i. isOpen i \<and> \<not> isMinimized i) (filter isForeground (instances s)))"


section \<open>Metadata Store (src/unnamed/part_010, \<open>useFilesStore\<close>)\<close>

datatype ItemStatus = Active | Trashed

datatype AliasType = FileAlias | AppAlias

datatype LibraryState = Uninitialized | Loaded | Cleared

text \<open>
  \<open>interface FileSystemItem\<close>. An optional property is an \<open>option\<close>: \<open>None\<close> is a property
  that is absent or \<open>undefined\<close>. Numbers are timestamps, byte counts and pixel sizes.
\<close>

record FileSystemItem =
  path :: string
  name :: string
  isDirectory :: bool
  icon :: "string option"
  type :: "string option"
  appId :: "string option"
  uuid :: "string option"
  size' :: "int option"
  createdAt :: "int option"
  modifiedAt :: "int option"
  status :: ItemStatus
  originalPath :: "string option"
  deletedAt :: "int option"
  shareId :: "string option"
  createdBy :: "string option"
  storeCreatedAt :: "int option"
  windowWidth :: "int option"
  windowHeight :: "int option"
  aliasTarget :: "string option"
  aliasType :: "AliasType option"
  hiddenOnThemes :: "string list option"

text \<open>
  \<open>items: Record<string, FileSystemItem>\<close>: the own properties of a JavaScript object in
  enumeration order, which for keys that are not array indices, as paths with their
  leading slash are, is the order of insertion. Assigning to a key that exists keeps
  its place; a new key goes last; \<open>delete\<close> removes the key.
\<close>

type_synonym 'v js_object = "(string \<times> 'v) list"

definition objGet :: "'v js_object \<Rightarrow> string \<Rightarrow> 'v option" where
  "objGet obj k = map_of obj k"

fun objSet :: "string \<Rightarrow> 'v \<Rightarrow> 'v js_object \<Rightarrow> 'v js_object" where
  "objSet k v [] = [(k, v)]"
| "objSet k v (e # obj) = (if fst e = k then (k, v) # obj else e # objSet k v obj)"

definition objDelete :: "string \<Rightarrow> 'v js_object \<Rightarrow> 'v js_object" where
  "objDelete k obj = filter (\<lambda>e. fst e \<noteq> k) obj"

definition objKeys :: "'v js_object \<Rightarrow> string list" where
  "objKeys obj = map fst obj"

definition objValues :: "'v js_object \<Rightarrow> 'v list" where
  "objValues obj = map snd obj"

record FilesStoreState =
  items :: "FileSystemItem js_object"
  libraryState :: LibraryState

text \<open>\<open>String.prototype.startsWith\<close>.\<close>

definition startsWith :: "string \<Rightarrow> string \<Rightarrow> bool" where
  "startsWith s p = prefix p s"

text \<open>\<open>String.prototype.split\<close> on a one-character separator, and \<open>Array.prototype.join\<close>.\<close>

fun splitOn :: "char \<Rightarrow> string \<Rightarrow> string list" where
  "splitOn c [] = [[]]"
| "splitOn c (x # xs) =
     (if x = c then [] # splitOn c xs
      else (case splitOn c xs of
              [] \<Rightarrow> [[x]]
            | s # ss \<Rightarrow> (x # s) # ss))"

fun joinWith :: "string \<Rightarrow> string list \<Rightarrow> string" where
  "joinWith sep [] = []"
| "joinWith sep [s] = s"
| "joinWith sep (s # t # ss) = s @ sep @ joinWith sep (t # ss)"

definition getParentPath :: "string \<Rightarrow> string" where
  "getParentPath p =
     (if p = ''/'' then ''/''
      else let parts = filter (\<lambda>s. s \<noteq> []) (splitOn CHR ''/'' p)
           in if length parts \<le> 1 then ''/''
              else ''/'' @ joinWith ''/'' (butlast parts))"

text \<open>JavaScript truthiness of an optional string and of an optional number.\<close>

definition truthyStr :: "string option \<Rightarrow> bool" where
  "truthyStr s = (case s of None \<Rightarrow> False | Some t \<Rightarrow> t \<noteq> [])"

definition truthyNum :: "int option \<Rightarrow> bool" where
  "truthyNum n = (case n of None \<Rightarrow> False | Some m \<Rightarrow> m \<noteq> 0)"

text \<open>\<open>a ?? b\<close> and, for a property that a spread may or may not carry, \<open>{...b, ...a}\<close>.\<close>

definition orElse :: "'a option \<Rightarrow> 'a option \<Rightarrow> 'a option" where
  "orElse a b = (case a of None \<Rightarrow> b | Some _ \<Rightarrow> a)"

text \<open>
  The tail shared by \<open>removeItem\<close> and \<open>restoreItem\<close>: the icon of the item stored at
  \<open>/Trash\<close> follows whether any item is trashed.
\<close>

definition updateTrashIcon :: "FileSystemItem js_object \<Rightarrow> FileSystemItem js_object" where
  "updateTrashIcon newItems =
     (let trashIsEmpty = list_all (\<lambda>item. status item \<noteq> Trashed) (objValues newItems)
      in case objGet newItems ''/Trash'' of
           None \<Rightarrow> newItems
         | Some t \<Rightarrow>
             objSet ''/Trash''
               (t\<lparr>icon := Some (if trashIsEmpty then ''/icons/trash-empty.png''
                                 else ''/icons/trash-full.png'')\<rparr>) newItems)"

text \<open>
  \<open>addItem(itemData)\<close>, with \<open>Date.now()\<close> and \<open>uuidv4()\<close> as parameters. The argument has
  type \<open>Omit<FileSystemItem, "status">\<close>: its status is overwritten before it is read.
  In the merge \<open>{...existingItem, ...newItem}\<close> a property the caller left out keeps
  the existing value.
\<close>

definition addItem_newItem :: "int \<Rightarrow> string \<Rightarrow> FileSystemItem \<Rightarrow> FileSystemItem" where
  "addItem_newItem now' freshUuid itemData =
     itemData\<lparr>
       status := Active,
       uuid := (if truthyStr (uuid itemData) then uuid itemData
                else if \<not> isDirectory itemData then Some freshUuid else None),
       createdAt := (if truthyNum (createdAt itemData) then createdAt itemData else Some now'),
       modifiedAt := (if truthyNum (modifiedAt itemData) then modifiedAt itemData
                      else Some now')\<rparr>"

text \<open>
  \<open>!state.items[parentPath] || !state.items[parentPath].isDirectory ||
  state.items[parentPath].status === "trashed"\<close>
\<close>

definition parentUnusable :: "FilesStoreState \<Rightarrow> string \<Rightarrow> bool" where
  "parentUnusable state parentPath =
     (case objGet (items state) parentPath of
        None \<Rightarrow> True
      | Some parent \<Rightarrow> \<not> isDirectory parent \<or> status parent = Trashed)"

definition addItem ::
  "int \<Rightarrow> string \<Rightarrow> FilesStoreState \<Rightarrow> FileSystemItem \<Rightarrow> FilesStoreState" where
  "addItem now' freshUuid state itemData =
    (let newItem = addItem_newItem now' freshUuid itemData;
         parentPath = getParentPath (path newItem)
     in if parentPath \<noteq> ''/'' \<and> parentUnusable state parentPath
        then state
        else
          (case objGet (items state) (path newItem) of
             Some existingItem \<Rightarrow>
               (let updatedItem = newItem\<lparr>
                      icon := orElse (icon newItem) (icon existingItem),
                      type := orElse (type newItem) (type existingItem),
                      appId := orElse (appId newItem) (appId existingItem),
                      size' := orElse (size' newItem) (size' existingItem),
                      originalPath := orElse (originalPath newItem) (originalPath existingItem),
                      deletedAt := orElse (deletedAt newItem) (deletedAt existingItem),
                      windowWidth := orElse (windowWidth newItem) (windowWidth existingItem),
                      windowHeight := orElse (windowHeight newItem) (windowHeight existingItem),
                      aliasTarget := orElse (aliasTarget newItem) (aliasTarget existingItem),
                      aliasType := orElse (aliasType newItem) (aliasType existingItem),
                      hiddenOnThemes :=
                        orElse (hiddenOnThemes newItem) (hiddenOnThemes existingItem),
                      uuid := (if truthyStr (uuid existingItem) then uuid existingItem
                               else uuid newItem),
                      createdAt := (if truthyNum (createdAt existingItem)
                                    then createdAt existingItem else createdAt newItem),
                      modifiedAt := (if truthyNum (modifiedAt newItem) then modifiedAt newItem
                                     else Some now'),
                      shareId := orElse (shareId newItem) (shareId existingItem),
                      createdBy := orElse (createdBy newItem) (createdBy existingItem),
                      storeCreatedAt :=
                        orElse (storeCreatedAt newItem) (storeCreatedAt existingItem)\<rparr>
                in state\<lparr>items := objSet (path newItem) updatedItem (items state),
                         libraryState := Loaded\<rparr>)
           | None \<Rightarrow>
               (let updatedItems = objSet (path newItem) newItem (items state);
                    updatedItems' =
                      (case objGet (items state) ''/Trash'' of
                         None \<Rightarrow> updatedItems
                       | Some t \<Rightarrow>
                           if parentPath = ''/Trash'' \<and> icon t \<noteq> Some ''/icons/trash-full.png''
                           then objSet ''/Trash'' (t\<lparr>icon := Some ''/icons/trash-full.png''\<rparr>)
                                  updatedItems
                           else updatedItems)
                in state\<lparr>items := updatedItems', libraryState := Loaded\<rparr>)))"

text \<open>
  \<open>removeItem(path, permanent = false)\<close>. The body of \<open>itemsToDelete.forEach\<close> is
  \<open>removeStep\<close>. The source is declared \<open>=> void\<close> and has no \<open>return\<close>: the local
  \<open>deletedContentPaths\<close> is filled and dropped (``We don't return deletedContentPaths
  here''). The second component is the value the caller receives, \<open>None\<close> for
  \<open>undefined\<close>. \<open>Date.now()\<close> is a parameter, one reading for the whole call.
\<close>

definition removeStep ::
  "bool \<Rightarrow> int \<Rightarrow> string \<Rightarrow> FileSystemItem js_object \<Rightarrow> FileSystemItem js_object" where
  "removeStep isPermanentDelete now' p newItems =
     (case objGet newItems p of
        None \<Rightarrow> newItems
      | Some currentItem \<Rightarrow>
          if isPermanentDelete then objDelete p newItems
          else if status currentItem = Active
          then objSet p (currentItem\<lparr>status := Trashed, originalPath := Some p,
                                     deletedAt := Some now'\<rparr>) newItems
          else newItems)"

text \<open>\<open>itemsToDelete\<close>: the path and, for a directory, every key that starts with \<open>path + "/"\<close>.\<close>

definition removeTargets ::
  "FileSystemItem js_object \<Rightarrow> FileSystemItem \<Rightarrow> string \<Rightarrow> string list" where
  "removeTargets newItems itemToRemove p =
     p # (if isDirectory itemToRemove
          then filter (\<lambda>itemPath. startsWith itemPath (p @ ''/'')) (objKeys newItems)
          else [])"

definition removeItem ::
  "int \<Rightarrow> FilesStoreState \<Rightarrow> string \<Rightarrow> bool \<Rightarrow> FilesStoreState \<times> string list option" where
  "removeItem now' state p permanent =
    (case objGet (items state) p of
       None \<Rightarrow> (state, None)
     | Some itemToRemove \<Rightarrow>
         (let newItems = items state;
              itemsToDelete = removeTargets newItems itemToRemove p;
              isPermanentDelete = (permanent \<or> status itemToRemove = Trashed);
              newItems' = fold (removeStep isPermanentDelete now') itemsToDelete newItems
          in (state\<lparr>items := updateTrashIcon newItems'\<rparr>, None)))"

definition restoreStep :: "string \<Rightarrow> FileSystemItem js_object \<Rightarrow> FileSystemItem js_object" where
  "restoreStep p newItems =
     (case objGet newItems p of
        None \<Rightarrow> newItems
      | Some currentItem \<Rightarrow>
          if status currentItem = Trashed
          then objSet p (currentItem\<lparr>status := Active, originalPath := None,
                                     deletedAt := None\<rparr>) newItems
          else newItems)"

text \<open>
  \<open>itemsToRestore\<close>: the path and, for a directory, every key under it whose item is
  trashed.
\<close>

definition restoreTargets ::
  "FileSystemItem js_object \<Rightarrow> FileSystemItem \<Rightarrow> string \<Rightarrow> string list" where
  "restoreTargets newItems itemToRestore p =
     p # (if isDirectory itemToRestore
          then filter (\<lambda>itemPath. startsWith itemPath (p @ ''/'') \<and>
                         (case objGet newItems itemPath of
                            None \<Rightarrow> False
                          | Some c \<Rightarrow> status c = Trashed)) (objKeys newItems)
          else [])"

definition restoreItem :: "FilesStoreState \<Rightarrow> string \<Rightarrow> FilesStoreState" where
  "restoreItem state p =
    (case objGet (items state) p of
       None \<Rightarrow> state
     | Some itemToRestore \<Rightarrow>
         if status itemToRestore \<noteq> Trashed then state
         else
           (let newItems = items state;
                itemsToRestore = restoreTargets newItems itemToRestore p;
                newItems' = fold restoreStep itemsToRestore newItems
            in state\<lparr>items := updateTrashIcon newItems'\<rparr>))"

text \<open>
  The body of the \<open>forEach\<close> over \<open>Object.keys(state.items)\<close> in \<open>renameItem\<close> and in
  \<open>moveItem\<close>: the child is read from the old object \<open>state.items\<close>, deleted from
  \<open>newItems\<close> and written back under the rewritten path. \<open>renameItem\<close> also rewrites
  \<open>originalPath\<close>; \<open>moveItem\<close> does not.
\<close>

definition renameChild ::
  "FileSystemItem js_object \<Rightarrow> string \<Rightarrow> string \<Rightarrow> string \<Rightarrow>
   FileSystemItem js_object \<Rightarrow> FileSystemItem js_object" where
  "renameChild old oldPath newPath itemPath newItems =
     (if startsWith itemPath (oldPath @ ''/'')
      then (case objGet old itemPath of
              None \<Rightarrow> newItems
            | Some childItem \<Rightarrow>
                let relativePath = drop (length oldPath) itemPath;
                    childNewPath = newPath @ relativePath;
                    updatedOriginalPath =
                      (if status childItem = Trashed then Some childNewPath else None)
                in objSet childNewPath
                     (childItem\<lparr>path := childNewPath, originalPath := updatedOriginalPath\<rparr>)
                     (objDelete itemPath newItems))
      else newItems)"

definition renameItem :: "FilesStoreState \<Rightarrow> string \<Rightarrow> string \<Rightarrow> string \<Rightarrow> FilesStoreState" where
  "renameItem state oldPath newPath newName =
    (case objGet (items state) oldPath of
       None \<Rightarrow> state
     | Some itemToRename \<Rightarrow>
         if status itemToRename \<noteq> Active then state
         else if objGet (items state) newPath \<noteq> None then state
         else
           (let newItems = objDelete oldPath (items state);
                updatedItem = itemToRename\<lparr>path := newPath, name := newName\<rparr>;
                newItems' = objSet newPath updatedItem newItems;
                newItems'' =
                  (if isDirectory itemToRename
                   then fold (renameChild (items state) oldPath newPath)
                          (objKeys (items state)) newItems'
                   else newItems')
            in state\<lparr>items := newItems''\<rparr>))"

definition moveChild ::
  "FileSystemItem js_object \<Rightarrow> string \<Rightarrow> string \<Rightarrow> string \<Rightarrow>
   FileSystemItem js_object \<Rightarrow> FileSystemItem js_object" where
  "moveChild old sourcePath destinationPath itemPath newItems =
     (if startsWith itemPath (sourcePath @ ''/'')
      then (case objGet old itemPath of
              None \<Rightarrow> newItems
            | Some childItem \<Rightarrow>
                let relativePath = drop (length sourcePath) itemPath;
                    childNewPath = destinationPath @ relativePath
                in objSet childNewPath (childItem\<lparr>path := childNewPath\<rparr>)
                     (objDelete itemPath newItems))
      else newItems)"

text \<open>\<open>moveItem\<close> returns the new store and the boolean \<open>success\<close>.\<close>

definition moveItem :: "FilesStoreState \<Rightarrow> string \<Rightarrow> string \<Rightarrow> FilesStoreState \<times> bool" where
  "moveItem state sourcePath destinationPath =
    (case objGet (items state) sourcePath of
       None \<Rightarrow> (state, False)
     | Some sourceItem \<Rightarrow>
         if status sourceItem \<noteq> Active then (state, False)
         else
           (let destinationParent = getParentPath destinationPath
            in if (case objGet (items state) destinationParent of
                     None \<Rightarrow> True
                   | Some parent \<Rightarrow> \<not> isDirectory parent)
               then (state, False)
               else if objGet (items state) destinationPath \<noteq> None then (state, False)
               else if isDirectory sourceItem \<and>
                       startsWith destinationPath (sourcePath @ ''/'')
               then (state, False)
               else
                 (let newItems = objDelete sourcePath (items state);
                      movedItem = sourceItem\<lparr>path := destinationPath\<rparr>;
                      newItems' = objSet destinationPath movedItem newItems;
                      newItems'' =
                        (if isDirectory sourceItem
                         then fold (moveChild (items state) sourcePath destinationPath)
                                (objKeys (items state)) newItems'
                         else newItems')
                  in (state\<lparr>items := newItems''\<rparr>, True))))"

definition getItem :: "FilesStoreState \<Rightarrow> string \<Rightarrow> FileSystemItem option" where
  "getItem state p = objGet (items state) p"


text \<open>The decimal rendering of a counter, as in the template string \<open>`${counter}`\<close>.\<close>

definition digitChar :: "nat \<Rightarrow> char" where
  "digitChar d = ''0123456789'' ! d"

fun stringOfNat :: "nat \<Rightarrow> string" where
  "stringOfNat n = (if n < 10 then [digitChar n]
                    else stringOfNat (n div 10) @ [digitChar (n mod 10)])"

text \<open>
  The names \<open>createAlias\<close> tries: \<open>ext\<close> is the text from the last dot on, \<open>baseName\<close> what
  precedes it, and the candidate is \<open>`/Desktop/${baseName} ${counter}${ext}`\<close>.
\<close>

definition aliasExt :: "string \<Rightarrow> string" where
  "aliasExt nm = (if CHR ''.'' \<in> set nm then ''.'' @ last (splitOn CHR ''.'' nm) else [])"

definition aliasBaseName :: "string \<Rightarrow> string" where
  "aliasBaseName nm =
     (let ext = aliasExt nm
      in if ext \<noteq> [] then take (length nm - length ext) nm else nm)"

definition aliasCandidate :: "string \<Rightarrow> nat \<Rightarrow> string" where
  "aliasCandidate nm counter =
     ''/Desktop/'' @ aliasBaseName nm @ '' '' @ stringOfNat counter @ aliasExt nm"

definition isActiveAtPath :: "FileSystemItem js_object \<Rightarrow> string \<Rightarrow> bool" where
  "isActiveAtPath newItems p =
     (case objGet newItems p of None \<Rightarrow> False | Some existing \<Rightarrow> status existing = Active)"

text \<open>The loop \<open>while (isActiveAtPath(finalAliasPath)) { ...; counter++ }\<close>.\<close>

function aliasLoop :: "FileSystemItem js_object \<Rightarrow> string \<Rightarrow> string \<Rightarrow> nat \<Rightarrow> string" where
  "aliasLoop newItems nm finalAliasPath counter =
     (if isActiveAtPath newItems finalAliasPath
      then aliasLoop newItems nm (aliasCandidate nm counter) (counter + 1)
      else finalAliasPath)"
  by pat_completeness auto

text \<open>
  \<open>createAlias(targetPath, aliasName, aliasType, targetAppId)\<close> in three pieces: the
  display name, the alias object, and the operation.
\<close>

definition createAlias_name :: "FileSystemItem option \<Rightarrow> string \<Rightarrow> string" where
  "createAlias_name originalItem aliasName =
     (case originalItem of
        Some orig \<Rightarrow> if aliasName = [] \<or> aliasName = name orig then name orig else aliasName
      | None \<Rightarrow> aliasName)"

definition createAlias_item ::
  "int \<Rightarrow> string \<Rightarrow> string \<Rightarrow> FileSystemItem option \<Rightarrow> string \<Rightarrow> AliasType \<Rightarrow> string option \<Rightarrow>
   FileSystemItem" where
  "createAlias_item now' finalAliasPath nm originalItem targetPath aliasType' targetAppId =
     (let isAppAlias = (aliasType' = AppAlias \<and> truthyStr targetAppId);
          lastSegment = last (splitOn CHR ''/'' finalAliasPath)
      in \<lparr>path = finalAliasPath,
          name = (if lastSegment \<noteq> [] then lastSegment else nm),
          isDirectory = False,
          icon = (if isAppAlias then None
                  else (case originalItem of
                          Some orig \<Rightarrow> icon orig
                        | None \<Rightarrow> Some ''/icons/default/file.png'')),
          type = Some (if aliasType' = AppAlias then ''application''
                       else (case originalItem of
                               None \<Rightarrow> ''alias''
                             | Some orig \<Rightarrow>
                                 (case type orig of
                                    None \<Rightarrow> ''alias''
                                  | Some t \<Rightarrow> if t \<noteq> [] then t else ''alias''))),
          appId = (if aliasType' = AppAlias then targetAppId else None),
          uuid = None,
          size' = None,
          createdAt = Some now',
          modifiedAt = Some now',
          status = Active,
          originalPath = None,
          deletedAt = None,
          shareId = None,
          createdBy = None,
          storeCreatedAt = None,
          windowWidth = None,
          windowHeight = None,
          aliasTarget = (if isAppAlias then targetAppId else Some targetPath),
          aliasType = Some aliasType',
          hiddenOnThemes = None\<rparr>)"

definition createAlias ::
  "int \<Rightarrow> FilesStoreState \<Rightarrow> string \<Rightarrow> string \<Rightarrow> AliasType \<Rightarrow> string option \<Rightarrow>
   FilesStoreState" where
  "createAlias now' state targetPath aliasName aliasType' targetAppId =
    (case objGet (items state) ''/Desktop'' of
       None \<Rightarrow> state
     | Some desktop \<Rightarrow>
         if \<not> isDirectory desktop then state
         else
           (let newItems = items state;
                isAppAlias = (aliasType' = AppAlias \<and> truthyStr targetAppId);
                originalItem = (if isAppAlias then None else objGet (items state) targetPath);
                nm = createAlias_name originalItem aliasName;
                aliasPath = ''/Desktop/'' @ nm;
                newItems' =
                  (case objGet newItems aliasPath of
                     None \<Rightarrow> newItems
                   | Some existingAtAliasPath \<Rightarrow>
                       if status existingAtAliasPath = Trashed
                       then objDelete aliasPath newItems else newItems);
                finalAliasPath = aliasLoop newItems' nm aliasPath 1;
                aliasItem = createAlias_item now' finalAliasPath nm originalItem targetPath
                              aliasType' targetAppId
            in state\<lparr>items := objSet finalAliasPath aliasItem newItems'\<rparr>))"

section \<open>File System Facade (src/unnamed/part_004, \<open>useFileSystem\<close>)\<close>

text \<open>
  The metadata step of \<open>moveToTrash\<close> and of \<open>restoreFromTrash\<close>. What follows it in the
  source moves the content blob between IndexedDB stores and does not touch the
  items map.
\<close>

definition moveToTrash :: "int \<Rightarrow> FilesStoreState \<Rightarrow> FileSystemItem \<Rightarrow> FilesStoreState" where
  "moveToTrash now' state fileMetadata =
     (if path fileMetadata = ''/'' \<or> path fileMetadata = ''/Trash'' \<or>
         status fileMetadata = Trashed
      then state
      else fst (removeItem now' state (path fileMetadata) False))"

definition restoreFromTrash :: "FilesStoreState \<Rightarrow> string \<Rightarrow> FilesStoreState" where
  "restoreFromTrash state itemToRestorePath =
     (case getItem state itemToRestorePath of
        None \<Rightarrow> state
      | Some fileMetadata \<Rightarrow>
          if status fileMetadata \<noteq> Trashed \<or> \<not> truthyStr (originalPath fileMetadata)
          then state
          else restoreItem state (path fileMetadata))"

text \<open>
  Step 0 of \<open>handleFileOpen\<close>: alias resolution. Each way out of the step is an outcome:
  the three \<open>console.warn(...); return\<close> exits, the \<open>launchApp(appId); return\<close> exit of
  an app alias (the only call that reaches a store), and falling through to step 1
  with the resolved file. \<open>getFileIcon\<close> is a parameter. The display copy of the target
  also turns the number \<open>modifiedAt\<close> into a \<open>Date\<close>, the same instant in another
  representation, which the record keeps as it is.
\<close>

datatype AliasOutcome =
    CircularAliasDetected string
  | TargetNotFound string
  | MaxDepthReached
  | LaunchedApp string
  | Resolved FileSystemItem

definition maxDepth :: nat where
  "maxDepth = 10"

definition isAlias :: "FileSystemItem option \<Rightarrow> bool" where
  "isAlias fileMetadata =
     (case fileMetadata of
        None \<Rightarrow> False
      | Some m \<Rightarrow> aliasType m \<noteq> None \<and> truthyStr (aliasTarget m))"

text \<open>
  The loop \<open>while (!resolved && depth < maxDepth)\<close> together with the test
  \<open>if (depth >= maxDepth)\<close> that follows it. The result carries the final \<open>depth\<close>, the
  number of iterations run.
\<close>

function resolveAlias ::
  "FilesStoreState \<Rightarrow> (FileSystemItem \<Rightarrow> string) \<Rightarrow> FileSystemItem \<Rightarrow> string list \<Rightarrow> nat \<Rightarrow>
   AliasOutcome \<times> nat" where
  "resolveAlias fileStore getFileIcon currentFile visitedPaths depth =
     (if depth < maxDepth
      then
        (let depth' = depth + 1;
             fileMetadata = getItem fileStore (path currentFile);
             notAnAlias =
               (if depth' \<ge> maxDepth then MaxDepthReached else Resolved currentFile, depth')
         in case fileMetadata of
              None \<Rightarrow> notAnAlias
            | Some m \<Rightarrow>
                (case aliasTarget m of
                   None \<Rightarrow> notAnAlias
                 | Some target \<Rightarrow>
                     if aliasType m = None \<or> target = [] then notAnAlias
                     else if path currentFile \<in> set visitedPaths
                     then (CircularAliasDetected (path currentFile), depth')
                     else if aliasType m = Some AppAlias then (LaunchedApp target, depth')
                     else
                       (case getItem fileStore target of
                          None \<Rightarrow> (TargetNotFound target, depth')
                        | Some targetFile \<Rightarrow>
                            resolveAlias fileStore getFileIcon
                              (targetFile\<lparr>icon := Some (getFileIcon targetFile)\<rparr>)
                              (path currentFile # visitedPaths) depth')))
      else (MaxDepthReached, depth))"
  by pat_completeness auto
termination
  by (relation "measure (\<lambda>(fileStore, getFileIcon, currentFile, visitedPaths, depth).
                  maxDepth - depth)") auto

definition handleFileOpen_resolve ::
  "FilesStoreState \<Rightarrow> (FileSystemItem \<Rightarrow> string) \<Rightarrow> FileSystemItem \<Rightarrow> AliasOutcome \<times> nat" where
  "handleFileOpen_resolve fileStore getFileIcon file =
     resolveAlias fileStore getFileIcon file [] 0"

text \<open>The store calls that step 0 itself makes on each way out.\<close>

fun storeCalls :: "AliasOutcome \<Rightarrow> string list" where
  "storeCalls (LaunchedApp app) = [app]"
| "storeCalls _ = []"


section \<open>Notions used to state the claims\<close>

text \<open>
  The paths an operation on the item \<open>it\<close> stored at \<open>p\<close> reaches: \<open>p\<close> itself and, when
  \<open>it\<close> is a directory, every path with the prefix \<open>p + "/"\<close>.
\<close>

definition underPath :: "FileSystemItem \<Rightarrow> string \<Rightarrow> string \<Rightarrow> bool" where
  "underPath it p q = (q = p \<or> (isDirectory it \<and> startsWith q (p @ ''/'')))"

text \<open>What soft deletion writes at path \<open>q\<close>, and what restoring writes.\<close>

definition trashMark :: "int \<Rightarrow> string \<Rightarrow> FileSystemItem \<Rightarrow> FileSystemItem" where
  "trashMark n q c =
     (if status c = Active
      then c\<lparr>status := Trashed, originalPath := Some q, deletedAt := Some n\<rparr> else c)"

definition restoreMark :: "FileSystemItem \<Rightarrow> FileSystemItem" where
  "restoreMark c =
     (if status c = Trashed
      then c\<lparr>status := Active, originalPath := None, deletedAt := None\<rparr> else c)"

text \<open>
  The names \<open>createAlias\<close> tests, in order: the preferred path, then the candidates
  numbered from 1.
\<close>

definition triedPath :: "string \<Rightarrow> nat \<Rightarrow> string" where
  "triedPath nm k = (if k = 0 then ''/Desktop/'' @ nm else aliasCandidate nm k)"

text \<open>
  The four failures the specification lists for \<open>moveItem\<close>: the source is missing or
  not active; the parent of the destination is missing or not a directory; the
  destination is occupied; a directory would go inside its own subtree.
\<close>

definition moveRejected :: "FilesStoreState \<Rightarrow> string \<Rightarrow> string \<Rightarrow> bool" where
  "moveRejected state src dst =
     ((case objGet (items state) src of None \<Rightarrow> True | Some s \<Rightarrow> status s \<noteq> Active) \<or>
      (case objGet (items state) (getParentPath dst) of
         None \<Rightarrow> True | Some parent \<Rightarrow> \<not> isDirectory parent) \<or>
      objGet (items state) dst \<noteq> None \<or>
      (case objGet (items state) src of
         None \<Rightarrow> False | Some s \<Rightarrow> isDirectory s \<and> startsWith dst (src @ ''/'')))"

text \<open>
  One hop of alias resolution from the path \<open>p\<close>: the item at \<open>p\<close> is a file alias with
  a non-empty target, the target is in the store, and the hop leads to the target's
  \<open>path\<close>. A chain is a list of paths, each leading to the next by one hop, whose last
  path is not an alias.
\<close>

definition aliasHop :: "FilesStoreState \<Rightarrow> string \<Rightarrow> string option" where
  "aliasHop fileStore p =
     (case getItem fileStore p of
        None \<Rightarrow> None
      | Some m \<Rightarrow>
          (case aliasTarget m of
             None \<Rightarrow> None
           | Some target \<Rightarrow>
               if aliasType m = Some FileAlias \<and> target \<noteq> []
               then map_option path (getItem fileStore target) else None))"

fun isChain :: "FilesStoreState \<Rightarrow> string list \<Rightarrow> bool" where
  "isChain fileStore [] = False"
| "isChain fileStore [p] = (\<not> isAlias (getItem fileStore p))"
| "isChain fileStore (p # q # ps) = (aliasHop fileStore p = Some q \<and> isChain fileStore (q # ps))"

text \<open>The two outcomes that reject a cyclic or too deep chain.\<close>

fun isRejection :: "AliasOutcome \<Rightarrow> bool" where
  "isRejection (CircularAliasDetected _) = True"
| "isRejection MaxDepthReached = True"
| "isRejection _ = False"

text \<open>
  The common shape of \<open>renameChild\<close> and \<open>moveChild\<close>: a key under \<open>src + "/"\<close> is
  deleted and its item, rewritten by \<open>upd\<close>, stored under the path with \<open>dst\<close> in place
  of \<open>src\<close>.
\<close>

definition relocateStep ::
  "(string \<Rightarrow> FileSystemItem \<Rightarrow> FileSystemItem) \<Rightarrow> FileSystemItem js_object \<Rightarrow> string \<Rightarrow> string \<Rightarrow>
   string \<Rightarrow> FileSystemItem js_object \<Rightarrow> FileSystemItem js_object" where
  "relocateStep upd old src dst k acc =
     (if startsWith k (src @ ''/'')
      then (case objGet old k of
              None \<Rightarrow> acc
            | Some c \<Rightarrow> objSet (dst @ drop (length src) k) (upd (dst @ drop (length src) k) c)
                         (objDelete k acc))
      else acc)"

text \<open>Where a key of the old object lands, and which old key a new path comes from.\<close>

definition movedFrom :: "string \<Rightarrow> string \<Rightarrow> string \<Rightarrow> string" where
  "movedFrom src dst q = src @ drop (length dst) q"

text \<open>Reading a decimal rendering back, to show that the rendering is injective.\<close>

definition natOfString :: "string \<Rightarrow> nat" where
  "natOfString s = foldl (\<lambda>acc c. 10 * acc + (of_char c - 48)) 0 s"

section \<open>Example inputs\<close>

definition exampleEnv :: Env where
  "exampleEnv = \<lparr>innerWidth = Some 1280, defaultSize = (\<lambda>_. (640, 480)), now = 1700000000000\<rparr>"

text \<open>A Finder window and two TextEdit windows, launched in that order.\<close>

definition threeWindows :: AppStoreState where
  "threeWindows =
     runOps exampleEnv initialAppStore
       [LaunchApp ''finder'' JUndefined None False,
        LaunchApp ''textedit'' JUndefined None False,
        LaunchApp ''textedit'' JUndefined None False]"

text \<open>A Finder window and a Paint window.\<close>

definition paintOpen :: AppStoreState where
  "paintOpen =
     runOps exampleEnv initialAppStore
       [LaunchApp ''finder'' JUndefined None False,
        LaunchApp ''paint'' JUndefined None False]"

text \<open>An item object that carries only \<open>path\<close>, \<open>name\<close> and \<open>isDirectory\<close>.\<close>

definition blankItem :: "string \<Rightarrow> string \<Rightarrow> bool \<Rightarrow> FileSystemItem" where
  "blankItem p n d =
     \<lparr>path = p, name = n, isDirectory = d, icon = None, type = None, appId = None,
      uuid = None, size' = None, createdAt = None, modifiedAt = None, status = Active,
      originalPath = None, deletedAt = None, shareId = None, createdBy = None,
      storeCreatedAt = None, windowWidth = None, windowHeight = None, aliasTarget = None,
      aliasType = None, hiddenOnThemes = None\<rparr>"

definition emptyStore :: FilesStoreState where
  "emptyStore = \<lparr>items = [], libraryState = Uninitialized\<rparr>"

definition exampleFile :: FileSystemItem where
  "exampleFile =
     (blankItem ''/Documents/a.txt'' ''a.txt'' False)
       \<lparr>uuid := Some ''u1'', createdAt := Some 5, modifiedAt := Some 5\<rparr>"

text \<open>
  A small library: the root, \<open>/Documents\<close> with one file, an empty \<open>/Desktop\<close> and
  \<open>/Trash\<close>.
\<close>

definition docsStore :: FilesStoreState where
  "docsStore =
     \<lparr>items =
        [(''/'', blankItem ''/'' ''/'' True),
         (''/Documents'', blankItem ''/Documents'' ''Documents'' True),
         (''/Documents/a.txt'', exampleFile),
         (''/Desktop'', blankItem ''/Desktop'' ''Desktop'' True),
         (''/Trash'', (blankItem ''/Trash'' ''Trash'' True)
                        \<lparr>icon := Some ''/icons/trash-empty.png''\<rparr>)],
      libraryState = Loaded\<rparr>"

text \<open>
  \<open>docsStore\<close> with three aliases on the desktop: \<open>x\<close> points at \<open>y\<close>, \<open>y\<close> at the
  document, and \<open>self\<close> at itself.
\<close>

definition aliasStore :: FilesStoreState where
  "aliasStore =
     docsStore\<lparr>items := items docsStore @
        [(''/Desktop/x'', (blankItem ''/Desktop/x'' ''x'' False)
            \<lparr>aliasType := Some FileAlias, aliasTarget := Some ''/Desktop/y''\<rparr>),
         (''/Desktop/y'', (blankItem ''/Desktop/y'' ''y'' False)
            \<lparr>aliasType := Some FileAlias, aliasTarget := Some ''/Documents/a.txt''\<rparr>),
         (''/Desktop/self'', (blankItem ''/Desktop/self'' ''self'' False)
            \<lparr>aliasType := Some FileAlias, aliasTarget := Some ''/Desktop/self''\<rparr>)]\<rparr>"

text \<open>
  A store reached through the store's own operations: \<open>/a\<close> is created and renamed
  to \<open>/a/a\<close> (the Finder builds such a path when a folder \<open>a\<close> is renamed to \<open>a/a\<close>), then
  a folder and two files are added below it.
\<close>

definition nestedStore :: FilesStoreState where
  "nestedStore =
     addItem 6 ''u2''
       (addItem 5 ''u1''
          (addItem 4 ''u0''
             (renameItem
                (addItem 2 ''u0''
                   (addItem 1 ''u0'' emptyStore (blankItem ''/'' ''/'' True))
                   (blankItem ''/a'' ''a'' True))
                ''/a'' ''/a/a'' ''a'')
             (blankItem ''/a/a/a'' ''a'' True))
          (blankItem ''/a/a/a/x'' ''x'' False))
       (blankItem ''/a/a/x'' ''x'' False)"

section \<open>The decimal rendering is injective, and the alias loop terminates\<close>

lemma digitChar_value: "d < 10 \<Longrightarrow> of_char (digitChar d) - 48 = d"
proof -
  assume "d < 10"
  then have "d \<in> {..<10}" by simp
  then have "d \<in> {0, 1, 2, 3, 4, 5, 6, 7, 8, 9}"
    by (simp add: lessThan_nat_numeral lessThan_Suc insert_commute)
  then show ?thesis by (auto simp: digitChar_def)
qed

lemma natOfString_stringOfNat: "natOfString (stringOfNat n) = n"
proof (induction n rule: stringOfNat.induct)
  case (1 n)
  show ?case
  proof (cases "n < 10")
    case True
    then show ?thesis by (simp add: natOfString_def digitChar_value)
  next
    case False
    have "natOfString (stringOfNat n) =
            10 * natOfString (stringOfNat (n div 10)) + (of_char (digitChar (n mod 10)) - 48)"
      using False by (subst stringOfNat.simps) (simp add: natOfString_def)
    also have "\<dots> = 10 * (n div 10) + n mod 10"
      using 1 False by (simp add: digitChar_value)
    finally show ?thesis by simp
  qed
qed

lemma stringOfNat_inj: "stringOfNat m = stringOfNat n \<Longrightarrow> m = n"
  by (metis natOfString_stringOfNat)

lemma aliasCandidate_inj: "aliasCandidate nm m = aliasCandidate nm n \<Longrightarrow> m = n"
  by (simp add: aliasCandidate_def stringOfNat_inj)

lemma finite_active_candidates: "finite {c. isActiveAtPath newItems (aliasCandidate nm c)}"
proof -
  have "{c. isActiveAtPath newItems (aliasCandidate nm c)}
          \<subseteq> aliasCandidate nm -` set (objKeys newItems)"
    by (force simp: isActiveAtPath_def objGet_def objKeys_def split: option.splits
          dest: map_of_SomeD)
  moreover have "finite (aliasCandidate nm -` set (objKeys newItems))"
    by (rule finite_vimageI) (auto simp: inj_on_def dest: aliasCandidate_inj)
  ultimately show ?thesis by (rule finite_subset)
qed

text \<open>
  Each round of the loop finds the name it tested occupied by an active item; the
  candidates are pairwise different, so the active ones still ahead get fewer.
\<close>

termination aliasLoop
proof (relation "measure (\<lambda>(newItems, nm, finalAliasPath, counter).
          card {c. counter \<le> c \<and> isActiveAtPath newItems (aliasCandidate nm c)} +
          (if isActiveAtPath newItems finalAliasPath then 1 else 0))", goal_cases)
  case 1
  then show ?case by simp
next
  case (2 newItems nm finalAliasPath counter)
  let ?A = "{c. counter \<le> c \<and> isActiveAtPath newItems (aliasCandidate nm c)}"
  let ?B = "{c. counter + 1 \<le> c \<and> isActiveAtPath newItems (aliasCandidate nm c)}"
  have fin: "finite ?A"
    using finite_active_candidates[of newItems nm] by (rule rev_finite_subset) auto
  show ?case
  proof (cases "isActiveAtPath newItems (aliasCandidate nm counter)")
    case True
    have "?A = insert counter ?B" using True by (auto simp: le_Suc_eq)
    moreover have "counter \<notin> ?B" by simp
    moreover have "finite ?B" using fin by (rule rev_finite_subset) auto
    ultimately have "card ?A = Suc (card ?B)" by simp
    then show ?thesis using 2 True by simp
  next
    case False
    have "?A = ?B" using False by (auto simp: le_Suc_eq) (metis Suc_leI le_neq_implies_less)
    then show ?thesis using 2 False by simp
  qed
qed

declare aliasLoop.simps [simp del]

section \<open>Window manager: lookups in the instance table\<close>

lemma find_Some_holds: "find P xs = Some x \<Longrightarrow> P x \<and> x \<in> set xs"
  by (induction xs) (auto split: if_splits)

lemma getInstance_map:
  "(\<And>i. instanceId (f i) = instanceId i) \<Longrightarrow>
   getInstance (map f tbl) k = map_option f (getInstance tbl k)"
  by (induction tbl) (auto simp: getInstance_def)

lemma getInstance_insertInstance:
  "getInstance tbl (instanceId v) = None \<Longrightarrow>
   getInstance (insertInstance v tbl) k = (if k = instanceId v then Some v else getInstance tbl k)"
  by (induction tbl) (auto simp: getInstance_def split: if_splits)

lemma getInstance_replaceInstance:
  "getInstance (replaceInstance v tbl) k =
     (if k = instanceId v then map_option (\<lambda>_. v) (getInstance tbl k) else getInstance tbl k)"
  by (induction tbl) (auto simp: getInstance_def)

lemma getInstance_setInstance:
  "getInstance (setInstance v tbl) k = (if k = instanceId v then Some v else getInstance tbl k)"
  by (auto simp: setInstance_def getInstance_insertInstance getInstance_replaceInstance)

lemma getInstance_SomeD: "getInstance tbl k = Some i \<Longrightarrow> instanceId i = k \<and> i \<in> set tbl"
  by (induction tbl) (auto simp: getInstance_def split: if_splits)

lemma map_replaceInstance:
  assumes "getInstance tbl (instanceId v) = Some i" "er v = er i"
  shows "map er (replaceInstance v tbl) = map er tbl"
  using assms by (induction tbl) (auto simp: getInstance_def split: if_splits)

lemma map_setInstance:
  assumes "getInstance tbl (instanceId v) = Some i" "er v = er i"
  shows "map er (setInstance v tbl) = map er tbl"
  using assms by (simp add: setInstance_def map_replaceInstance)

lemma lastNonMinimized_SomeD:
  "lastNonMinimized insts k order = Some j \<Longrightarrow>
   j \<noteq> k \<and> j \<in> set order \<and> (\<exists>i. getInstance insts j = Some i \<and> isOpen i \<and> \<not> isMinimized i)"
  unfolding lastNonMinimized_def
  by (auto dest!: find_Some_holds split: option.splits)

section \<open>Window manager: the claims\<close>

text \<open>
  Claim C1 (foreground exclusivity, P6): after any sequence of window-manager
  operations at most one instance has \<open>isForeground = true\<close>, and it is open and not
  minimized. The code breaks it: \<open>minimizeInstance\<close> sets the flag of the instance it
  hands the foreground to and clears only the flag of the minimized one. From the
  initial store, launch Finder, TextEdit and TextEdit again, then minimize the third
  window (which is still loading and was never foreground): the scan takes window 2,
  the last open non-minimized id of \<open>instanceOrder\<close>, while window 1 keeps its flag.
  Two instances are foreground, whatever the environment.
\<close>

theorem minimizeInstance_two_foreground:
  "map (\<lambda>i. (instanceId i, isForeground i, isOpen i, isMinimized i))
     (instances (runOps env initialAppStore
        [LaunchApp ''finder'' JUndefined None False,
         LaunchApp ''textedit'' JUndefined None False,
         LaunchApp ''textedit'' JUndefined None False,
         MinimizeInstance 3]))
   = [(1, True, True, False), (2, True, True, False), (3, False, True, True)] \<and>
   \<not> foregroundExclusive (runOps env initialAppStore
        [LaunchApp ''finder'' JUndefined None False,
         LaunchApp ''textedit'' JUndefined None False,
         LaunchApp ''textedit'' JUndefined None False,
         MinimizeInstance 3])"
  by (simp add: runOps_def launchApp_def createAppInstance_def minimizeInstance_def
      initialAppStore_def setInstance_def getInstance_def lastNonMinimized_def
      foregroundExclusive_def Let_def split: option.splits)

text \<open>
  Claim C10: \<open>minimizeInstance\<close> never changes \<open>instanceOrder\<close>. It leaves the order and
  the id counter as they are, and the instance table differs from the old one in
  \<open>isMinimized\<close> and \<open>isForeground\<close> flags only: with both flags overwritten by any
  fixed values \<open>m\<close> and \<open>f\<close>, the old and the new table are the same list. When the
  instance is open and not minimized, it ends minimized and not foreground, no other
  instance changes its \<open>isMinimized\<close>, and the new \<open>foregroundInstanceId\<close>, if any, names
  another id of the order whose instance is open, not minimized and foreground.
\<close>

theorem minimizeInstance_frame:
  "instanceOrder (minimizeInstance s k) = instanceOrder s \<and>
   nextInstanceId (minimizeInstance s k) = nextInstanceId s \<and>
   map (\<lambda>i. i\<lparr>isMinimized := m, isForeground := f\<rparr>) (instances (minimizeInstance s k)) =
     map (\<lambda>i. i\<lparr>isMinimized := m, isForeground := f\<rparr>) (instances s) \<and>
   (\<forall>inst. getInstance (instances s) k = Some inst \<and> isOpen inst \<and> \<not> isMinimized inst \<longrightarrow>
      getInstance (instances (minimizeInstance s k)) k =
        Some (inst\<lparr>isMinimized := True, isForeground := False\<rparr>) \<and>
      (\<forall>j i. j \<noteq> k \<and> getInstance (instances s) j = Some i \<longrightarrow>
         (\<exists>i'. getInstance (instances (minimizeInstance s k)) j = Some i' \<and>
               isMinimized i' = isMinimized i)) \<and>
      (\<forall>j. foregroundInstanceId (minimizeInstance s k) = Some j \<longrightarrow>
         j \<noteq> k \<and> j \<in> set (instanceOrder s) \<and>
         (\<exists>i. getInstance (instances (minimizeInstance s k)) j = Some i \<and>
              isOpen i \<and> \<not> isMinimized i \<and> isForeground i)))"
proof (cases "getInstance (instances s) k")
  case None
  then show ?thesis by (simp add: minimizeInstance_def)
next
  case (Some inst)
  note found = Some
  show ?thesis
  proof (cases "isMinimized inst")
    case True
    then show ?thesis using found by (simp add: minimizeInstance_def)
  next
    case False
    define inst' where "inst' = inst\<lparr>isMinimized := True, isForeground := False\<rparr>"
    define insts where "insts = setInstance inst' (instances s)"
    define nf where "nf = lastNonMinimized insts k (instanceOrder s)"
    have idk: "instanceId inst = k" using found by (simp add: getInstance_SomeD)
    have id': "instanceId inst' = k" by (simp add: inst'_def idk)
    have get1: "\<And>j. getInstance insts j =
                  (if j = k then Some inst' else getInstance (instances s) j)"
      by (simp add: insts_def getInstance_setInstance id')
    have er1: "map (\<lambda>i. i\<lparr>isMinimized := m, isForeground := f\<rparr>) insts =
               map (\<lambda>i. i\<lparr>isMinimized := m, isForeground := f\<rparr>) (instances s)"
      unfolding insts_def
      by (rule map_setInstance[where i = inst]) (simp_all add: idk found inst'_def)
    show ?thesis
    proof (cases nf)
      case None
      have eq: "minimizeInstance s k = s\<lparr>instances := insts, foregroundInstanceId := None\<rparr>"
        using found False None
        by (simp add: minimizeInstance_def Let_def insts_def nf_def inst'_def)
      show ?thesis unfolding eq using er1 get1 by (simp add: found inst'_def)
    next
      case (Some j)
      note nfj = Some
      from lastNonMinimized_SomeD[OF nfj[unfolded nf_def]]
      obtain i where j: "j \<noteq> k" "j \<in> set (instanceOrder s)"
        and i: "getInstance insts j = Some i" "isOpen i" "\<not> isMinimized i" by blast
      have idj: "instanceId i = j" using i(1) by (simp add: getInstance_SomeD)
      have eq: "minimizeInstance s k =
          s\<lparr>instances := setInstance (i\<lparr>isForeground := True\<rparr>) insts,
            foregroundInstanceId := Some j\<rparr>"
        using found False nfj i(1)
        by (simp add: minimizeInstance_def Let_def insts_def[symmetric] inst'_def[symmetric]
            nf_def[symmetric])
      have er2: "map (\<lambda>i. i\<lparr>isMinimized := m, isForeground := f\<rparr>)
                   (setInstance (i\<lparr>isForeground := True\<rparr>) insts) =
                 map (\<lambda>i. i\<lparr>isMinimized := m, isForeground := f\<rparr>) insts"
        by (rule map_setInstance[where i = i]) (simp_all add: idj i)
      show ?thesis unfolding eq using er1 er2 get1 j i idj
        by (auto simp: getInstance_setInstance found inst'_def)
    qed
  qed
qed

theorem minimizeInstance_frame_witness:
  "(\<exists>inst. getInstance (instances threeWindows) 2 = Some inst \<and> isOpen inst \<and>
            \<not> isMinimized inst) \<and>
   instanceOrder threeWindows = [1, 2, 3] \<and>
   instanceOrder (minimizeInstance threeWindows 2) = [1, 2, 3] \<and>
   foregroundInstanceId (minimizeInstance threeWindows 2) = Some 3 \<and>
   map isMinimized (instances (minimizeInstance threeWindows 2)) = [False, True, False]"
  using minimizeInstance_frame[of threeWindows 2 False False]
  by (simp add: threeWindows_def exampleEnv_def runOps_def launchApp_def createAppInstance_def
      minimizeInstance_def initialAppStore_def setInstance_def getInstance_def
      lastNonMinimized_def Let_def split: option.splits)


text \<open>
  Claim C9: \<open>launchApp\<close> hard-codes \<open>textedit\<close> and \<open>finder\<close> as multi-window. Let some
  instance of the app be open and not minimized, and let \<open>multiWindow\<close> be \<open>false\<close>. For
  these two apps \<open>launchApp\<close> is \<open>createAppInstance\<close>: it returns the next counter
  value, and the table holds under it a new open instance of the app with the given
  \<open>initialData\<close> and title. For every other app it returns the id of an open instance
  \<open>e\<close> of the app that was already there and creates nothing: the table keeps its
  instances, with \<open>isForeground\<close> set on \<open>e\<close> alone and \<open>initialData\<close> of \<open>e\<close> replaced when
  the argument is truthy; \<open>e\<close> moves to the tail of the order and becomes
  \<open>foregroundInstanceId\<close>; the id counter stays.
\<close>

theorem launchApp_multi_window:
  assumes "\<exists>i\<in>set (instances s). AppInstance.appId i = app \<and> isOpen i \<and> \<not> isMinimized i"
  shows "((app = ''textedit'' \<or> app = ''finder'') \<longrightarrow>
            launchApp env s app d t False = createAppInstance env s app d t \<and>
            snd (launchApp env s app d t False) = nextInstanceId s + 1 \<and>
            (\<exists>i. getInstance (instances (fst (launchApp env s app d t False)))
                    (nextInstanceId s + 1) = Some i \<and>
                 AppInstance.appId i = app \<and> isOpen i \<and> initialData i = d \<and> title i = t)) \<and>
         (app \<noteq> ''textedit'' \<and> app \<noteq> ''finder'' \<longrightarrow>
            (\<exists>e\<in>set (instances s). AppInstance.appId e = app \<and> isOpen e \<and>
               snd (launchApp env s app d t False) = instanceId e \<and>
               instances (fst (launchApp env s app d t False)) =
                 map (\<lambda>i. i\<lparr>isForeground := (instanceId i = instanceId e),
                            initialData := (if truthy d \<and> instanceId i = instanceId e then d
                                            else initialData i)\<rparr>) (instances s) \<and>
               instanceOrder (fst (launchApp env s app d t False)) =
                 filter (\<lambda>j. j \<noteq> instanceId e) (instanceOrder s) @ [instanceId e] \<and>
               foregroundInstanceId (fst (launchApp env s app d t False)) = Some (instanceId e) \<and>
               nextInstanceId (fst (launchApp env s app d t False)) = nextInstanceId s))"
proof -
  define appInstances where
    "appInstances = filter (\<lambda>i. AppInstance.appId i = app \<and> isOpen i) (instances s)"
  from assms obtain w where w: "w \<in> set (instances s)" "AppInstance.appId w = app" "isOpen w"
    "\<not> isMinimized w" by blast
  then have win: "w \<in> set appInstances" by (simp add: appInstances_def)
  then have notall: "\<not> list_all isMinimized appInstances" using w(4) by (auto simp: list_all_iff)
  have step: "launchApp env s app d t False =
      (let supportsMultiWindow = (app = ''textedit'' \<or> app = ''finder'');
           existing = (if \<not> supportsMultiWindow
                       then find (\<lambda>i. AppInstance.appId i = app \<and> isOpen i) (instances s)
                       else None)
       in case existing of
            Some e \<Rightarrow>
              (let s1 = bringInstanceToForeground s (Some (instanceId e));
                   s2 = (if truthy d then setInitialData s1 (instanceId e) d else s1)
               in (s2, instanceId e))
          | None \<Rightarrow> createAppInstance env s app d t)"
    using notall by (simp add: launchApp_def appInstances_def[symmetric] Let_def split: option.splits)
  have multi: "(app = ''textedit'' \<or> app = ''finder'') \<longrightarrow>
            launchApp env s app d t False = createAppInstance env s app d t"
    by (auto simp: step)
  have created: "snd (createAppInstance env s app d t) = nextInstanceId s + 1 \<and>
      (\<exists>i. getInstance (instances (fst (createAppInstance env s app d t))) (nextInstanceId s + 1) = Some i \<and>
                 AppInstance.appId i = app \<and> isOpen i \<and> initialData i = d \<and> title i = t)"
    by (simp add: createAppInstance_def Let_def getInstance_map getInstance_setInstance)
  have single: "(\<exists>e\<in>set (instances s). AppInstance.appId e = app \<and> isOpen e \<and>
               snd (launchApp env s app d t False) = instanceId e \<and>
               instances (fst (launchApp env s app d t False)) =
                 map (\<lambda>i. i\<lparr>isForeground := (instanceId i = instanceId e),
                            initialData := (if truthy d \<and> instanceId i = instanceId e then d
                                            else initialData i)\<rparr>) (instances s) \<and>
               instanceOrder (fst (launchApp env s app d t False)) =
                 filter (\<lambda>j. j \<noteq> instanceId e) (instanceOrder s) @ [instanceId e] \<and>
               foregroundInstanceId (fst (launchApp env s app d t False)) = Some (instanceId e) \<and>
               nextInstanceId (fst (launchApp env s app d t False)) = nextInstanceId s)"
    if other: "app \<noteq> ''textedit''" "app \<noteq> ''finder''"
  proof -
    obtain e where e: "find (\<lambda>i. AppInstance.appId i = app \<and> isOpen i) (instances s) = Some e"
      using w by (cases "find (\<lambda>i. AppInstance.appId i = app \<and> isOpen i) (instances s)")
        (auto simp: find_None_iff)
    from find_Some_holds[OF e] have eP: "AppInstance.appId e = app" "isOpen e" "e \<in> set (instances s)"
      by auto
    then have present: "getInstance (instances s) (instanceId e) \<noteq> None"
      by (auto simp: getInstance_def find_None_iff)
    have res: "launchApp env s app d t False =
        (let s1 = bringInstanceToForeground s (Some (instanceId e));
             s2 = (if truthy d then setInitialData s1 (instanceId e) d else s1)
         in (s2, instanceId e))"
      using other e by (simp add: step)
    show ?thesis
      apply (rule bexI[OF _ eP(3)])
      using present eP
      by (auto simp: res Let_def bringInstanceToForeground_def setInitialData_def
          split: option.splits)
  qed
  show ?thesis
  proof (intro conjI impI)
    assume a: "app = ''textedit'' \<or> app = ''finder''"
    with multi have eq: "launchApp env s app d t False = createAppInstance env s app d t" by blast
    show "launchApp env s app d t False = createAppInstance env s app d t" by (rule eq)
    show "snd (launchApp env s app d t False) = nextInstanceId s + 1"
      unfolding eq using created by blast
    show "\<exists>i. getInstance (instances (fst (launchApp env s app d t False)))
                    (nextInstanceId s + 1) = Some i \<and>
                 AppInstance.appId i = app \<and> isOpen i \<and> initialData i = d \<and> title i = t"
      unfolding eq using created by blast
  next
    assume "app \<noteq> ''textedit'' \<and> app \<noteq> ''finder''"
    then show "\<exists>e\<in>set (instances s). AppInstance.appId e = app \<and> isOpen e \<and>
               snd (launchApp env s app d t False) = instanceId e \<and>
               instances (fst (launchApp env s app d t False)) =
                 map (\<lambda>i. i\<lparr>isForeground := (instanceId i = instanceId e),
                            initialData := (if truthy d \<and> instanceId i = instanceId e then d
                                            else initialData i)\<rparr>) (instances s) \<and>
               instanceOrder (fst (launchApp env s app d t False)) =
                 filter (\<lambda>j. j \<noteq> instanceId e) (instanceOrder s) @ [instanceId e] \<and>
               foregroundInstanceId (fst (launchApp env s app d t False)) = Some (instanceId e) \<and>
               nextInstanceId (fst (launchApp env s app d t False)) = nextInstanceId s"
      using single by blast
  qed
qed


theorem launchApp_multi_window_witness:
  "(\<exists>i\<in>set (instances threeWindows). AppInstance.appId i = ''textedit'' \<and> isOpen i \<and>
        \<not> isMinimized i) \<and>
   snd (launchApp exampleEnv threeWindows ''textedit'' JUndefined None False) = 4 \<and>
   map instanceId
     (instances (fst (launchApp exampleEnv threeWindows ''textedit'' JUndefined None False))) =
     [1, 2, 3, 4] \<and>
   (\<exists>i\<in>set (instances paintOpen). AppInstance.appId i = ''paint'' \<and> isOpen i \<and>
        \<not> isMinimized i) \<and>
   snd (launchApp exampleEnv paintOpen ''paint'' (JString ''x'') None False) = 2 \<and>
   map (\<lambda>i. (instanceId i, isForeground i, initialData i))
     (instances (fst (launchApp exampleEnv paintOpen ''paint'' (JString ''x'') None False))) =
     [(1, False, JUndefined), (2, True, JString ''x'')]"
  using launchApp_multi_window[of threeWindows "''textedit''" exampleEnv JUndefined None]
    launchApp_multi_window[of paintOpen "''paint''" exampleEnv "JString ''x''" None]
  by (simp add: threeWindows_def paintOpen_def exampleEnv_def runOps_def launchApp_def
      createAppInstance_def initialAppStore_def setInstance_def getInstance_def
      bringInstanceToForeground_def setInitialData_def Let_def split: option.splits)


section \<open>Metadata store: lookups in the items object\<close>

lemma objGet_objSet: "objGet (objSet k v obj) q = (if q = k then Some v else objGet obj q)"
  by (induction obj) (auto simp: objGet_def)

lemma objGet_objDelete: "objGet (objDelete k obj) q = (if q = k then None else objGet obj q)"
  by (induction obj) (auto simp: objGet_def objDelete_def)

lemma newItem_fields:
  "path (addItem_newItem n f d) = path d"
  "name (addItem_newItem n f d) = name d"
  "isDirectory (addItem_newItem n f d) = isDirectory d"
  "status (addItem_newItem n f d) = Active"
  "modifiedAt (addItem_newItem n f d) = (if truthyNum (modifiedAt d) then modifiedAt d else Some n)"
  by (simp_all add: addItem_newItem_def)

lemma addItem_rejected:
  "getParentPath (path d) \<noteq> ''/'' \<and> parentUnusable state (getParentPath (path d)) \<Longrightarrow>
   addItem n f state d = state"
  by (simp add: addItem_def Let_def newItem_fields)

lemma addItem_new:
  assumes "\<not> (getParentPath (path d) \<noteq> ''/'' \<and> parentUnusable state (getParentPath (path d)))"
    and "objGet (items state) (path d) = None"
  shows "libraryState (addItem n f state d) = Loaded"
    and "objGet (items (addItem n f state d)) (path d) = Some (addItem_newItem n f d)"
    and "q \<noteq> path d \<Longrightarrow> q \<noteq> ''/Trash'' \<Longrightarrow>
         objGet (items (addItem n f state d)) q = objGet (items state) q"
proof -
  have ne: "getParentPath (path d) = ''/Trash'' \<Longrightarrow> path d \<noteq> ''/Trash''"
    by (auto simp: getParentPath_def)
  from assms(1) have g:
    "(getParentPath (path d) \<noteq> ''/'' \<and> parentUnusable state (getParentPath (path d))) = False"
    by simp
  show "libraryState (addItem n f state d) = Loaded"
    using assms(2) by (simp add: addItem_def Let_def newItem_fields g split: option.splits)
  show "objGet (items (addItem n f state d)) (path d) = Some (addItem_newItem n f d)"
    using assms(2) ne
    by (cases "objGet (items state) ''/Trash''")
       (simp_all add: addItem_def Let_def newItem_fields objGet_objSet g)
  show "objGet (items (addItem n f state d)) q = objGet (items state) q"
    if "q \<noteq> path d" "q \<noteq> ''/Trash''"
    using assms(2) that
    by (cases "objGet (items state) ''/Trash''")
       (simp_all add: addItem_def Let_def newItem_fields objGet_objSet g)
qed

lemma addItem_merge:
  assumes "\<not> (getParentPath (path d) \<noteq> ''/'' \<and> parentUnusable state (getParentPath (path d)))"
    and "objGet (items state) (path d) = Some e"
  shows "libraryState (addItem n f state d) = Loaded"
    and "q \<noteq> path d \<Longrightarrow> objGet (items (addItem n f state d)) q = objGet (items state) q"
    and "\<exists>u. objGet (items (addItem n f state d)) (path d) = Some u \<and>
              path u = path d \<and> name u = name d \<and>
              isDirectory u = isDirectory d \<and> status u = Active \<and>
              uuid u = (if truthyStr (uuid e) then uuid e else uuid (addItem_newItem n f d)) \<and>
              createdAt u = (if truthyNum (createdAt e) then createdAt e
                             else createdAt (addItem_newItem n f d)) \<and>
              modifiedAt u = (if truthyNum (modifiedAt d) then modifiedAt d else Some n)"
proof -
  from assms(1) have g:
    "(getParentPath (path d) \<noteq> ''/'' \<and> parentUnusable state (getParentPath (path d))) = False"
    by simp
  show "libraryState (addItem n f state d) = Loaded"
    using assms(2) by (simp add: addItem_def Let_def newItem_fields g)
  show "objGet (items (addItem n f state d)) q = objGet (items state) q" if "q \<noteq> path d"
    using assms(2) that by (simp add: addItem_def Let_def newItem_fields objGet_objSet g)
  show "\<exists>u. objGet (items (addItem n f state d)) (path d) = Some u \<and>
              path u = path d \<and> name u = name d \<and>
              isDirectory u = isDirectory d \<and> status u = Active \<and>
              uuid u = (if truthyStr (uuid e) then uuid e else uuid (addItem_newItem n f d)) \<and>
              createdAt u = (if truthyNum (createdAt e) then createdAt e
                             else createdAt (addItem_newItem n f d)) \<and>
              modifiedAt u = (if truthyNum (modifiedAt d) then modifiedAt d else Some n)"
    using assms(2) by (simp add: addItem_def Let_def newItem_fields objGet_objSet g)
qed

lemma objGet_removeStep:
  "objGet (removeStep perm n p obj) q =
     (if q = p then (if perm then None else map_option (trashMark n p) (objGet obj p))
      else objGet obj q)"
  by (auto simp: removeStep_def objGet_objSet objGet_objDelete trashMark_def split: option.splits)

lemma objGet_fold_removeStep:
  "objGet (fold (removeStep perm n) ks obj) q =
     (if q \<in> set ks then (if perm then None else map_option (trashMark n q) (objGet obj q))
      else objGet obj q)"
proof (induction ks arbitrary: obj)
  case Nil
  then show ?case by simp
next
  case (Cons k ks)
  have idem: "\<And>k c. trashMark n k (trashMark n k c) = trashMark n k c"
    by (simp add: trashMark_def)
  show ?case
    by (simp add: Cons.IH objGet_removeStep option.map_comp comp_def idem)
qed

lemma objGet_updateTrashIcon:
  "objGet (updateTrashIcon obj) q =
     (if q = ''/Trash''
      then map_option (\<lambda>t. t\<lparr>icon := Some (if list_all (\<lambda>item. status item \<noteq> Trashed) (objValues obj)
                                          then ''/icons/trash-empty.png''
                                          else ''/icons/trash-full.png'')\<rparr>) (objGet obj q)
      else objGet obj q)"
  by (auto simp: updateTrashIcon_def Let_def objGet_objSet split: option.splits)

lemma objKeys_iff: "q \<in> set (objKeys obj) \<longleftrightarrow> objGet obj q \<noteq> None"
  by (induction obj) (auto simp: objKeys_def objGet_def)


lemma objGet_in_values: "objGet obj p = Some v \<Longrightarrow> v \<in> set (objValues obj)"
  by (auto simp: objGet_def objValues_def dest!: map_of_SomeD intro: rev_image_eqI)

lemma removeItem_keys:
  "set (p # (if isDirectory it then filter (\<lambda>k. startsWith k (p @ ''/'')) (objKeys obj) else [])) =
     {q. q = p \<or> (isDirectory it \<and> startsWith q (p @ ''/'') \<and> objGet obj q \<noteq> None)}"
  by (auto simp: objKeys_iff)

lemma removeItem_unfold:
  assumes "objGet (items state) p = Some it"
  shows "removeItem n state p permanent =
     (state\<lparr>items := updateTrashIcon
        (fold (removeStep (permanent \<or> status it = Trashed) n)
           (removeTargets (items state) it p) (items state))\<rparr>, None)"
  using assms by (simp add: removeItem_def Let_def removeTargets_def)

lemma removeItem_lookup:
  assumes "objGet (items state) p = Some it"
  shows "objGet (fold (removeStep perm n) (removeTargets (items state) it p) (items state)) q =
         (if underPath it p q
          then (if perm then None else map_option (trashMark n q) (objGet (items state) q))
          else objGet (items state) q)"
  unfolding objGet_fold_removeStep removeTargets_def removeItem_keys
  using assms by (cases "objGet (items state) q") (auto simp: underPath_def)

lemma removeItem_returns:
  "snd (removeItem n state p permanent) = None \<and>
   libraryState (fst (removeItem n state p permanent)) = libraryState state"
  by (cases "objGet (items state) p") (simp_all add: removeItem_def Let_def)

lemma removeItem_permanent_lookup:
  assumes "objGet (items state) p = Some it" "permanent \<or> status it = Trashed"
  shows "objGet (items (fst (removeItem n state p permanent))) q =
           (if underPath it p q then None
            else if q = ''/Trash''
            then objGet (updateTrashIcon
                   (fold (removeStep True n) (removeTargets (items state) it p) (items state))) q
            else objGet (items state) q)"
  using assms(2)
  by (auto simp add: removeItem_unfold[OF assms(1)] objGet_updateTrashIcon
      removeItem_lookup[OF assms(1)])

lemma removeItem_soft_lookup:
  assumes "objGet (items state) p = Some it" "\<not> permanent \<and> status it = Active"
  shows "objGet (items (fst (removeItem n state p permanent))) q =
           (if q = ''/Trash''
            then map_option (\<lambda>t. t\<lparr>icon := Some ''/icons/trash-full.png''\<rparr>) else id)
             (if underPath it p q then map_option (trashMark n q) (objGet (items state) q)
              else objGet (items state) q)"
proof -
  define new where "new = fold (removeStep (permanent \<or> status it = Trashed) n)
           (removeTargets (items state) it p) (items state)"
  have u: "removeItem n state p permanent = (state\<lparr>items := updateTrashIcon new\<rparr>, None)"
    unfolding new_def by (rule removeItem_unfold[OF assms(1)])
  have look: "\<And>q. objGet new q =
         (if underPath it p q
          then (if permanent \<or> status it = Trashed then None
                else map_option (trashMark n q) (objGet (items state) q))
          else objGet (items state) q)"
    unfolding new_def by (rule removeItem_lookup[OF assms(1)])
  have "objGet new p = Some (trashMark n p it)"
    using assms by (simp add: look underPath_def)
  then have "trashMark n p it \<in> set (objValues new)" by (rule objGet_in_values)
  moreover have "status (trashMark n p it) = Trashed" using assms(2) by (simp add: trashMark_def)
  ultimately have ne: "\<not> list_all (\<lambda>item. status item \<noteq> Trashed) (objValues new)"
    by (auto simp: list_all_iff)
  show ?thesis
    unfolding u using assms(2) by (simp add: objGet_updateTrashIcon ne look)
qed

lemma objGet_restoreStep:
  "objGet (restoreStep p obj) q =
     (if q = p then map_option restoreMark (objGet obj p) else objGet obj q)"
  by (auto simp: restoreStep_def objGet_objSet restoreMark_def split: option.splits)

lemma objGet_fold_restoreStep:
  "objGet (fold restoreStep ks obj) q =
     (if q \<in> set ks then map_option restoreMark (objGet obj q) else objGet obj q)"
proof (induction ks arbitrary: obj)
  case Nil
  then show ?case by simp
next
  case (Cons k ks)
  have idem: "\<And>c. restoreMark (restoreMark c) = restoreMark c"
    by (simp add: restoreMark_def)
  show ?case
    by (simp add: Cons.IH objGet_restoreStep option.map_comp comp_def idem)
qed

lemma restoreItem_unfold:
  assumes "objGet (items state) p = Some it" "status it = Trashed"
  shows "restoreItem state p =
     state\<lparr>items := updateTrashIcon
        (fold restoreStep (restoreTargets (items state) it p) (items state))\<rparr>"
  using assms by (simp add: restoreItem_def Let_def restoreTargets_def)

lemma set_restoreTargets:
  "set (restoreTargets obj it p) =
     {q. q = p \<or> (isDirectory it \<and> startsWith q (p @ ''/'') \<and>
                   (\<exists>c. objGet obj q = Some c \<and> status c = Trashed))}"
  by (auto simp: restoreTargets_def objKeys_iff split: option.splits)

lemma restoreItem_lookup:
  assumes "objGet (items state) p = Some it"
  shows "objGet (fold restoreStep (restoreTargets (items state) it p) (items state)) q =
         (if underPath it p q then map_option restoreMark (objGet (items state) q)
          else objGet (items state) q)"
  unfolding objGet_fold_restoreStep set_restoreTargets
  using assms
  by (cases "objGet (items state) q") (auto simp: underPath_def restoreMark_def)

lemma restoreMark_trashMark:
  "status it = Active \<Longrightarrow>
   restoreMark (trashMark n p it) = it\<lparr>originalPath := None, deletedAt := None\<rparr>"
  by (simp add: restoreMark_def trashMark_def)

lemma fold_invariant:
  assumes "P acc" and "\<And>k a. k \<in> set ks \<Longrightarrow> P a \<Longrightarrow> P (f k a)"
  shows "P (fold f ks acc)"
  using assms by (induction ks arbitrary: acc) auto

lemma startsWith_slash_drop:
  "startsWith k (s @ ''/'') \<Longrightarrow> drop (length s) k \<noteq> []"
  by (auto simp: startsWith_def prefix_def)

lemma moveChild_other:
  assumes "\<not> startsWith q (src @ ''/'')" "\<not> startsWith q (dst @ ''/'')"
  shows "objGet (moveChild old src dst k acc) q = objGet acc q"
proof (cases "startsWith k (src @ ''/'')")
  case False
  then show ?thesis by (simp add: moveChild_def)
next
  case True
  have 1: "q \<noteq> k" using True assms(1) by auto
  have "startsWith (dst @ drop (length src) k) (dst @ ''/'')"
    using True by (auto simp: startsWith_def prefix_def)
  then have 2: "q \<noteq> dst @ drop (length src) k" using assms(2) by auto
  show ?thesis using 1 2
    by (simp add: moveChild_def Let_def objGet_objSet objGet_objDelete split: option.splits)
qed

lemma moveChild_dst:
  assumes "objGet old dst = None"
  shows "objGet (moveChild old src dst k acc) dst = objGet acc dst"
proof (cases "startsWith k (src @ ''/'') \<and> objGet old k \<noteq> None")
  case False
  then show ?thesis by (auto simp: moveChild_def split: option.splits)
next
  case True
  then have 1: "dst \<noteq> k" using assms by auto
  have 2: "dst \<noteq> dst @ drop (length src) k" using True startsWith_slash_drop by auto
  show ?thesis using 1 2 True
    by (auto simp: moveChild_def Let_def objGet_objSet objGet_objDelete split: option.splits)
qed

lemma moveItem_rejected: "moveRejected state src dst \<Longrightarrow> moveItem state src dst = (state, False)"
  by (auto simp: moveRejected_def moveItem_def Let_def split: option.splits)

lemma moveItem_accepted:
  assumes "\<not> moveRejected state src dst"
  shows "\<exists>s. objGet (items state) src = Some s \<and> status s = Active \<and>
             objGet (items state) dst = None \<and>
             moveItem state src dst =
               (state\<lparr>items :=
                  (if isDirectory s
                   then fold (moveChild (items state) src dst) (objKeys (items state))
                          (objSet dst (s\<lparr>path := dst\<rparr>) (objDelete src (items state)))
                   else objSet dst (s\<lparr>path := dst\<rparr>) (objDelete src (items state)))\<rparr>, True)"
  using assms
  by (auto simp: moveRejected_def moveItem_def Let_def split: option.splits)

lemma aliasLoop_result:
  "\<exists>k. aliasLoop newItems nm f c = (if k = 0 then f else aliasCandidate nm (c + k - 1)) \<and>
       \<not> isActiveAtPath newItems (aliasLoop newItems nm f c) \<and>
       (0 < k \<longrightarrow> isActiveAtPath newItems f) \<and>
       (\<forall>j. 1 \<le> j \<and> j < k \<longrightarrow> isActiveAtPath newItems (aliasCandidate nm (c + j - 1)))"
proof (induction newItems nm f c rule: aliasLoop.induct)
  case (1 newItems nm f c)
  show ?case
  proof (cases "isActiveAtPath newItems f")
    case False
    then have "aliasLoop newItems nm f c = f" by (subst aliasLoop.simps) simp
    then show ?thesis using False by (intro exI[of _ 0]) simp
  next
    case True
    from 1[OF True] obtain k where k:
      "aliasLoop newItems nm (aliasCandidate nm c) (c + 1) =
         (if k = 0 then aliasCandidate nm c else aliasCandidate nm (c + 1 + k - 1))"
      "\<not> isActiveAtPath newItems (aliasLoop newItems nm (aliasCandidate nm c) (c + 1))"
      "0 < k \<longrightarrow> isActiveAtPath newItems (aliasCandidate nm c)"
      "\<forall>j. 1 \<le> j \<and> j < k \<longrightarrow> isActiveAtPath newItems (aliasCandidate nm (c + 1 + j - 1))"
      by blast
    have unf: "aliasLoop newItems nm f c = aliasLoop newItems nm (aliasCandidate nm c) (c + 1)"
      using True by (subst aliasLoop.simps) simp
    have allj: "isActiveAtPath newItems (aliasCandidate nm (c + j - 1))" if "1 \<le> j" "j < Suc k" for j
    proof (cases "j = 1")
      case True
      then show ?thesis using k(3) that by auto
    next
      case False
      then have "1 \<le> j - 1 \<and> j - 1 < k" using that by auto
      with k(4) have "isActiveAtPath newItems (aliasCandidate nm (c + 1 + (j - 1) - 1))" by blast
      moreover have "c + 1 + (j - 1) - 1 = c + j - 1" using that by simp
      ultimately show ?thesis by simp
    qed
    show ?thesis
      apply (rule exI[of _ "Suc k"])
      unfolding unf using k(1,2) True allj by (auto split: if_splits)
  qed
qed

lemma aliasLoop_from_one:
  "\<exists>k. aliasLoop newItems nm (''/Desktop/'' @ nm) 1 = triedPath nm k \<and>
       \<not> isActiveAtPath newItems (triedPath nm k) \<and>
       (\<forall>j<k. isActiveAtPath newItems (triedPath nm j))"
proof -
  from aliasLoop_result[of newItems nm "''/Desktop/'' @ nm" 1] obtain k where k:
    "aliasLoop newItems nm (''/Desktop/'' @ nm) 1 =
       (if k = 0 then ''/Desktop/'' @ nm else aliasCandidate nm (1 + k - 1))"
    "\<not> isActiveAtPath newItems (aliasLoop newItems nm (''/Desktop/'' @ nm) 1)"
    "0 < k \<longrightarrow> isActiveAtPath newItems (''/Desktop/'' @ nm)"
    "\<forall>j. 1 \<le> j \<and> j < k \<longrightarrow> isActiveAtPath newItems (aliasCandidate nm (1 + j - 1))"
    by blast
  have e: "aliasLoop newItems nm (''/Desktop/'' @ nm) 1 = triedPath nm k"
    using k(1) by (simp add: triedPath_def)
  have "isActiveAtPath newItems (triedPath nm j)" if "j < k" for j
  proof (cases "j = 0")
    case True
    then show ?thesis using k(3) that by (simp add: triedPath_def)
  next
    case False
    then show ?thesis using k(4) that by (simp add: triedPath_def)
  qed
  then show ?thesis using e k(2) by auto
qed

lemma triedPath_on_desktop: "startsWith (triedPath nm k) ''/Desktop/''"
  by (simp add: triedPath_def aliasCandidate_def startsWith_def)


lemma createAlias_item_fields:
  "path (createAlias_item n f nm orig target ty app) = f"
  "status (createAlias_item n f nm orig target ty app) = Active"
  "isDirectory (createAlias_item n f nm orig target ty app) = False"
  "aliasType (createAlias_item n f nm orig target ty app) = Some ty"
  "aliasTarget (createAlias_item n f nm orig target ty app) =
     (if ty = AppAlias \<and> truthyStr app then app else Some target)"
  "createdAt (createAlias_item n f nm orig target ty app) = Some n"
  "modifiedAt (createAlias_item n f nm orig target ty app) = Some n"
  by (simp_all add: createAlias_item_def Let_def)

lemma isActiveAtPath_freed:
  "isActiveAtPath
     (case objGet obj p of None \<Rightarrow> obj
      | Some e \<Rightarrow> if status e = Trashed then objDelete p obj else obj) q =
   isActiveAtPath obj q"
  by (auto simp: isActiveAtPath_def objGet_objDelete split: option.splits)

lemma objGet_freed:
  "isActiveAtPath obj p \<or> q \<noteq> p \<Longrightarrow>
   objGet (case objGet obj p of None \<Rightarrow> obj
           | Some e \<Rightarrow> if status e = Trashed then objDelete p obj else obj) q = objGet obj q"
  by (auto simp: isActiveAtPath_def objGet_objDelete split: option.splits)

lemma moveChild_relocate:
  "moveChild old src dst = relocateStep (\<lambda>np c. c\<lparr>path := np\<rparr>) old src dst"
  by (intro ext) (simp add: moveChild_def relocateStep_def Let_def split: option.splits)

lemma renameChild_relocate:
  "renameChild old src dst =
     relocateStep (\<lambda>np c. c\<lparr>path := np, originalPath := (if status c = Trashed then Some np else None)\<rparr>)
       old src dst"
  by (intro ext) (simp add: renameChild_def relocateStep_def Let_def split: option.splits)

lemma startsWith_slash_iff: "startsWith k (s @ ''/'') \<longleftrightarrow> (\<exists>r. k = s @ CHR ''/'' # r)"
  by (auto simp: startsWith_def prefix_def)

lemma objGet_relocateStep:
  "objGet (relocateStep upd old src dst k acc) q =
     (case (if startsWith k (src @ ''/'') then objGet old k else None) of
        None \<Rightarrow> objGet acc q
      | Some c \<Rightarrow> if q = dst @ drop (length src) k then Some (upd q c)
                  else if q = k then None else objGet acc q)"
  by (auto simp: relocateStep_def objGet_objSet objGet_objDelete split: option.splits)

lemma relocate_fold:
  assumes "\<forall>k\<in>set ks. \<not> startsWith k (dst @ ''/'')"
  shows "objGet (fold (relocateStep upd old src dst) ks acc) q =
     (if startsWith q (dst @ ''/'') \<and> movedFrom src dst q \<in> set ks \<and>
         objGet old (movedFrom src dst q) \<noteq> None
      then map_option (upd q) (objGet old (movedFrom src dst q))
      else if q \<in> set ks \<and> startsWith q (src @ ''/'') \<and> objGet old q \<noteq> None then None
      else objGet acc q)"
  using assms
proof (induction ks arbitrary: acc q)
  case Nil
  then show ?case by simp
next
  case (Cons k ks)
  have Hk: "\<not> startsWith k (dst @ ''/'')" and Hks: "\<forall>k\<in>set ks. \<not> startsWith k (dst @ ''/'')"
    using Cons.prems by auto
  note IH = Cons.IH[OF Hks, of "relocateStep upd old src dst k acc"]
  have from_new: "movedFrom src dst (dst @ drop (length src) k) = k"
    if "startsWith k (src @ ''/'')"
    using that by (auto simp: movedFrom_def startsWith_slash_iff)
  have new_under: "startsWith (dst @ drop (length src) k) (dst @ ''/'')"
    if "startsWith k (src @ ''/'')"
    using that by (auto simp: startsWith_slash_iff)
  have from_under: "startsWith (movedFrom src dst q) (src @ ''/'')"
    if "startsWith q (dst @ ''/'')"
    using that by (auto simp: movedFrom_def startsWith_slash_iff)
  have rebuilt: "q = dst @ drop (length src) k"
    if "startsWith q (dst @ ''/'')" "movedFrom src dst q = k"
    using that by (auto simp: movedFrom_def startsWith_slash_iff)
  show ?case
  proof (cases "startsWith k (src @ ''/'') \<and> objGet old k \<noteq> None")
    case False
    then have step: "\<And>q. objGet (relocateStep upd old src dst k acc) q = objGet acc q"
      by (auto simp: objGet_relocateStep)
    have "movedFrom src dst q \<noteq> k \<or> objGet old k = None" if "startsWith q (dst @ ''/'')"
      using False from_under[OF that] by auto
    then show ?thesis using False by (auto simp: IH step)
  next
    case True
    then obtain c where c: "objGet old k = Some c" by auto
    have step: "\<And>q. objGet (relocateStep upd old src dst k acc) q =
        (if q = dst @ drop (length src) k then Some (upd q c)
         else if q = k then None else objGet acc q)"
      using True c by (simp add: objGet_relocateStep)
    show ?thesis
    proof (cases "q = dst @ drop (length src) k")
      case qnew: True
      have "startsWith q (dst @ ''/'')" "movedFrom src dst q = k"
        using qnew new_under from_new True by auto
      moreover have "q \<notin> set ks" using Hks \<open>startsWith q (dst @ ''/'')\<close> by auto
      ultimately show ?thesis using c qnew[symmetric] by (simp add: IH step)
    next
      case qold: False
      have nk: "\<not> (startsWith q (dst @ ''/'') \<and> movedFrom src dst q = k)"
        using rebuilt qold by blast
      show ?thesis
      proof (cases "q = k")
        case True
        then show ?thesis using Hk c \<open>startsWith k (src @ ''/'') \<and> objGet old k \<noteq> None\<close> qold
          by (simp add: IH step)
      next
        case False
        then show ?thesis using nk qold by (auto simp: IH step)
      qed
    qed
  qed
qed


lemma movedFrom_child: "movedFrom src dst (dst @ CHR ''/'' # r) = src @ CHR ''/'' # r"
  by (simp add: movedFrom_def)

lemma relocate_all:
  assumes free: "\<forall>k\<in>set (objKeys old). \<not> startsWith k (dst @ ''/'')"
    and dst: "objGet old dst = None" and src: "objGet old src \<noteq> None"
  shows "objGet (fold (relocateStep upd old src dst) (objKeys old)
                  (objSet dst v (objDelete src old))) q =
     (if q = dst then Some v
      else if startsWith q (dst @ ''/'')
      then map_option (upd q) (objGet old (movedFrom src dst q))
      else if q = src \<or> startsWith q (src @ ''/'') then None
      else objGet old q)"
proof -
  have nokey: "objGet old k = None" if "startsWith k (dst @ ''/'')" for k
    using free that by (auto simp: objKeys_iff)
  have sd: "src \<noteq> dst" using dst src by auto
  have dd: "\<not> startsWith dst (dst @ ''/'')" by (simp add: startsWith_slash_iff)
  have ss: "\<not> startsWith src (src @ ''/'')" by (simp add: startsWith_slash_iff)
  have srcfree: "\<not> startsWith src (dst @ ''/'')" using nokey src by auto
  show ?thesis
    unfolding relocate_fold[OF free]
    using sd dd ss srcfree nokey dst
    by (auto simp: objKeys_iff objGet_objSet objGet_objDelete)
qed

lemma moveItem_relocates:
  assumes "\<not> moveRejected state src dst" "objGet (items state) src = Some s" "isDirectory s"
    and "\<forall>k\<in>set (objKeys (items state)). \<not> startsWith k (dst @ ''/'')"
  shows "objGet (items (fst (moveItem state src dst))) q =
     (if q = dst then Some (s\<lparr>path := dst\<rparr>)
      else if startsWith q (dst @ ''/'')
      then map_option (\<lambda>c. c\<lparr>path := q\<rparr>) (objGet (items state) (movedFrom src dst q))
      else if q = src \<or> startsWith q (src @ ''/'') then None
      else objGet (items state) q)"
proof -
  have d: "objGet (items state) dst = None"
    using assms(1) by (auto simp: moveRejected_def)
  have eq: "moveItem state src dst =
      (state\<lparr>items := fold (relocateStep (\<lambda>np c. c\<lparr>path := np\<rparr>) (items state) src dst)
                         (objKeys (items state))
                         (objSet dst (s\<lparr>path := dst\<rparr>) (objDelete src (items state)))\<rparr>, True)"
    using assms(1,2,3)
    by (auto simp: moveRejected_def moveItem_def Let_def moveChild_relocate split: option.splits)
  show ?thesis
    unfolding eq using relocate_all[OF assms(4) d, of src] assms(2) by simp
qed

lemma renameItem_relocates:
  assumes "objGet (items state) oldPath = Some it" "status it = Active" "isDirectory it"
    and "objGet (items state) newPath = None"
    and "\<forall>k\<in>set (objKeys (items state)). \<not> startsWith k (newPath @ ''/'')"
  shows "objGet (items (renameItem state oldPath newPath newName)) q =
     (if q = newPath then Some (it\<lparr>path := newPath, name := newName\<rparr>)
      else if startsWith q (newPath @ ''/'')
      then map_option (\<lambda>c. c\<lparr>path := q, originalPath := (if status c = Trashed then Some q else None)\<rparr>)
             (objGet (items state) (movedFrom oldPath newPath q))
      else if q = oldPath \<or> startsWith q (oldPath @ ''/'') then None
      else objGet (items state) q)"
proof -
  have eq: "renameItem state oldPath newPath newName =
      state\<lparr>items := fold (relocateStep
                 (\<lambda>np c. c\<lparr>path := np, originalPath := (if status c = Trashed then Some np else None)\<rparr>)
                 (items state) oldPath newPath)
               (objKeys (items state))
               (objSet newPath (it\<lparr>path := newPath, name := newName\<rparr>)
                  (objDelete oldPath (items state)))\<rparr>"
    using assms(1,2,3,4)
    by (simp add: renameItem_def Let_def renameChild_relocate)
  show ?thesis
    unfolding eq using relocate_all[OF assms(5,4), of oldPath] assms(1) by simp
qed

lemma moveItem_children:
  assumes "\<not> moveRejected state src dst" "objGet (items state) src = Some s" "isDirectory s"
    and "\<forall>k\<in>set (objKeys (items state)). \<not> startsWith k (dst @ ''/'')"
  shows "objGet (items (fst (moveItem state src dst))) src = None"
    and "objGet (items (fst (moveItem state src dst))) (dst @ CHR ''/'' # r) =
           map_option (\<lambda>c. c\<lparr>path := dst @ CHR ''/'' # r\<rparr>) (objGet (items state) (src @ CHR ''/'' # r))"
    and "objGet (items state) (src @ CHR ''/'' # r) \<noteq> None \<Longrightarrow>
           objGet (items (fst (moveItem state src dst))) (src @ CHR ''/'' # r) = None"
proof -
  note rel = moveItem_relocates[OF assms]
  have sd: "src \<noteq> dst" using assms(1,2) by (auto simp: moveRejected_def)
  have nokey: "\<And>k. startsWith k (dst @ ''/'') \<Longrightarrow> objGet (items state) k = None"
    using assms(4) by (auto simp: objKeys_iff)
  have s1: "\<not> startsWith src (dst @ ''/'')" using nokey assms(2) by auto
  show "objGet (items (fst (moveItem state src dst))) src = None"
    using sd s1 by (simp add: rel)
  have d1: "startsWith (dst @ CHR ''/'' # r) (dst @ ''/'')" by (simp add: startsWith_slash_iff)
  show "objGet (items (fst (moveItem state src dst))) (dst @ CHR ''/'' # r) =
           map_option (\<lambda>c. c\<lparr>path := dst @ CHR ''/'' # r\<rparr>) (objGet (items state) (src @ CHR ''/'' # r))"
    using d1 by (simp add: rel movedFrom_child)
  show "objGet (items (fst (moveItem state src dst))) (src @ CHR ''/'' # r) = None"
    if "objGet (items state) (src @ CHR ''/'' # r) \<noteq> None"
  proof -
    have a: "\<not> startsWith (src @ CHR ''/'' # r) (dst @ ''/'')" using nokey that by auto
    have b: "src @ CHR ''/'' # r \<noteq> dst" using assms(1) that by (auto simp: moveRejected_def)
    have c: "startsWith (src @ CHR ''/'' # r) (src @ ''/'')" by (simp add: startsWith_slash_iff)
    show ?thesis using a b c by (simp add: rel)
  qed
qed

section \<open>Metadata store: the claims\<close>

text \<open>
  Claim C7 says that \<open>addItem\<close> is a silent no-op when the parent path of the new item
  does not exist. The guard of the source starts with \<open>parentPath !== "/"\<close>: a parent
  path of \<open>/\<close> is never looked up. Adding \<open>/a\<close> to the empty store, where \<open>/\<close> does not
  exist, stores the item.
\<close>

theorem addItem_missing_root_counterexample:
  "objGet (items emptyStore) (getParentPath (path (blankItem ''/a'' ''a'' True))) = None \<and>
   addItem 7 ''u0'' emptyStore (blankItem ''/a'' ''a'' True) \<noteq> emptyStore \<and>
   map fst (items (addItem 7 ''u0'' emptyStore (blankItem ''/a'' ''a'' True))) = [''/a'']"
  by (simp add: addItem_def addItem_newItem_def parentUnusable_def emptyStore_def
      blankItem_def getParentPath_def objGet_def Let_def)

text \<open>
  Claim C7, amended: \<open>addItem\<close> returns the state unchanged when the parent path is not
  \<open>/\<close> and is missing, not a directory or trashed. Otherwise the library state becomes
  \<open>loaded\<close> and, if the path was free, it now holds the new item (status active, the
  given uuid or a fresh one for a file, the given timestamps or the current time),
  every other path but \<open>/Trash\<close> being as before; if the path held an item \<open>e\<close>, it
  now holds the merge, whose path, name and \<open>isDirectory\<close> are the new ones, whose
  status is active, whose uuid and \<open>createdAt\<close> are those of \<open>e\<close> when \<open>e\<close> has them, and
  whose \<open>modifiedAt\<close> is the one supplied or else the current time, every other path
  being as before.
\<close>

theorem addItem_contract:
  "(getParentPath (path itemData) \<noteq> ''/'' \<and>
    parentUnusable state (getParentPath (path itemData)) \<longrightarrow>
      addItem now' freshUuid state itemData = state) \<and>
   (\<not> (getParentPath (path itemData) \<noteq> ''/'' \<and>
        parentUnusable state (getParentPath (path itemData))) \<longrightarrow>
      libraryState (addItem now' freshUuid state itemData) = Loaded \<and>
      (\<forall>q. q \<noteq> path itemData \<and> q \<noteq> ''/Trash'' \<longrightarrow>
         objGet (items (addItem now' freshUuid state itemData)) q = objGet (items state) q) \<and>
      (objGet (items state) (path itemData) = None \<longrightarrow>
         objGet (items (addItem now' freshUuid state itemData)) (path itemData) =
           Some (addItem_newItem now' freshUuid itemData) \<and>
         status (addItem_newItem now' freshUuid itemData) = Active) \<and>
      (\<forall>e. objGet (items state) (path itemData) = Some e \<longrightarrow>
         (\<forall>q. q \<noteq> path itemData \<longrightarrow>
            objGet (items (addItem now' freshUuid state itemData)) q = objGet (items state) q) \<and>
         (\<exists>u. objGet (items (addItem now' freshUuid state itemData)) (path itemData) = Some u \<and>
              path u = path itemData \<and> name u = name itemData \<and>
              isDirectory u = isDirectory itemData \<and> status u = Active \<and>
              uuid u = (if truthyStr (uuid e) then uuid e
                        else uuid (addItem_newItem now' freshUuid itemData)) \<and>
              createdAt u = (if truthyNum (createdAt e) then createdAt e
                             else createdAt (addItem_newItem now' freshUuid itemData)) \<and>
              modifiedAt u = (if truthyNum (modifiedAt itemData) then modifiedAt itemData
                              else Some now'))))"
proof (cases "getParentPath (path itemData) \<noteq> ''/'' \<and>
    parentUnusable state (getParentPath (path itemData))")
  case True
  then show ?thesis by (simp add: addItem_rejected)
next
  case False
  note ok = False
  show ?thesis
  proof (cases "objGet (items state) (path itemData)")
    case None
    show ?thesis
      using ok None addItem_new[OF ok None, where n = now' and f = freshUuid]
      by (auto simp: newItem_fields)
  next
    case (Some e)
    show ?thesis
      using ok Some addItem_merge[OF ok Some, where n = now' and f = freshUuid]
      by auto
  qed
qed


theorem addItem_contract_witness:
  "parentUnusable emptyStore (getParentPath ''/Documents/b.txt'') \<and>
   addItem 9 ''u2'' emptyStore (blankItem ''/Documents/b.txt'' ''b.txt'' False) = emptyStore \<and>
   \<not> parentUnusable docsStore (getParentPath ''/Documents/a.txt'') \<and>
   map_option (\<lambda>u. (uuid u, createdAt u, modifiedAt u, size' u))
     (objGet (items (addItem 9 ''u2'' docsStore
        ((blankItem ''/Documents/a.txt'' ''a.txt'' False)\<lparr>size' := Some 12\<rparr>)))
        ''/Documents/a.txt'') =
     Some (Some ''u1'', Some 5, Some 9, Some 12)"
  using addItem_contract[of "blankItem ''/Documents/b.txt'' ''b.txt'' False" emptyStore 9 "''u2''"]
    addItem_contract[of "(blankItem ''/Documents/a.txt'' ''a.txt'' False)\<lparr>size' := Some 12\<rparr>"
      docsStore 9 "''u2''"]
  by (simp add: addItem_def addItem_newItem_def parentUnusable_def emptyStore_def docsStore_def
      exampleFile_def blankItem_def getParentPath_def objGet_def Let_def truthyStr_def
      truthyNum_def orElse_def)


text \<open>
  Claim C2 says that a permanent \<open>removeItem\<close> returns the set of freed content UUIDs.
  The source is declared \<open>=> void\<close> and returns nothing on any path: the paths of the
  deleted files are pushed to the local \<open>deletedContentPaths\<close>, which is dropped.
  Permanently removing the file with uuid \<open>u1\<close> deletes it and hands the caller
  \<open>undefined\<close>.
\<close>

theorem removeItem_returns_nothing_counterexample:
  "map_option uuid (objGet (items docsStore) ''/Documents/a.txt'') = Some (Some ''u1'') \<and>
   objGet (items (fst (removeItem 9 docsStore ''/Documents/a.txt'' True))) ''/Documents/a.txt'' = None \<and>
   snd (removeItem 9 docsStore ''/Documents/a.txt'' True) \<noteq> Some [''u1'']"
  by (simp add: removeItem_def removeTargets_def removeStep_def updateTrashIcon_def docsStore_def
      exampleFile_def blankItem_def objGet_def objDelete_def objValues_def Let_def)

text \<open>
  Claim C2, amended: \<open>removeItem\<close> returns nothing and leaves the library state. For
  an item \<open>it\<close> stored at \<open>p\<close>: when \<open>permanent\<close> is true or \<open>it\<close> is already trashed,
  \<open>p\<close> and, if \<open>it\<close> is a directory, every path under \<open>p + "/"\<close> are gone from the
  map, and every other path but \<open>/Trash\<close> is as before; otherwise \<open>p\<close> and, if \<open>it\<close> is a
  directory, every path under it hold their item marked by \<open>trashMark\<close> (an active item
  becomes trashed with \<open>originalPath\<close> its own path and \<open>deletedAt\<close> the current time, a
  trashed one stays as it is), and every other path is as before. In both cases the
  item stored at \<open>/Trash\<close>, if still there, has its icon rewritten (to the full bin
  after a soft delete).
\<close>

theorem removeItem_contract:
  assumes "objGet (items state) p = Some it"
  shows "snd (removeItem n state p permanent) = None \<and>
         libraryState (fst (removeItem n state p permanent)) = libraryState state \<and>
         (permanent \<or> status it = Trashed \<longrightarrow>
            (\<forall>q. underPath it p q \<longrightarrow>
               objGet (items (fst (removeItem n state p permanent))) q = None) \<and>
            (\<forall>q. \<not> underPath it p q \<and> q \<noteq> ''/Trash'' \<longrightarrow>
               objGet (items (fst (removeItem n state p permanent))) q = objGet (items state) q) \<and>
            (\<not> underPath it p ''/Trash'' \<longrightarrow>
               (\<exists>ic. objGet (items (fst (removeItem n state p permanent))) ''/Trash'' =
                  map_option (\<lambda>t. t\<lparr>icon := Some ic\<rparr>) (objGet (items state) ''/Trash'')))) \<and>
         (\<not> permanent \<and> status it = Active \<longrightarrow>
            (\<forall>q. objGet (items (fst (removeItem n state p permanent))) q =
               (if q = ''/Trash''
                then map_option (\<lambda>t. t\<lparr>icon := Some ''/icons/trash-full.png''\<rparr>) else id)
                 (if underPath it p q then map_option (trashMark n q) (objGet (items state) q)
                  else objGet (items state) q)))"
proof -
  have perm3: "\<exists>ic. objGet (items (fst (removeItem n state p permanent))) ''/Trash'' =
                  map_option (\<lambda>t. t\<lparr>icon := Some ic\<rparr>) (objGet (items state) ''/Trash'')"
    if "permanent \<or> status it = Trashed" "\<not> underPath it p ''/Trash''"
    using that
    by (simp add: removeItem_permanent_lookup[OF assms that(1)] objGet_updateTrashIcon
        removeItem_lookup[OF assms]) blast
  show ?thesis
    using removeItem_returns[of n state p permanent] perm3
      removeItem_permanent_lookup[OF assms, of permanent n]
      removeItem_soft_lookup[OF assms, of permanent n]
    by simp
qed

theorem removeItem_contract_witness:
  "objGet (items docsStore) ''/Documents'' = Some (blankItem ''/Documents'' ''Documents'' True) \<and>
   map_option (\<lambda>c. (status c, originalPath c, deletedAt c))
     (objGet (items (fst (removeItem 9 docsStore ''/Documents'' False))) ''/Documents/a.txt'') =
     Some (Trashed, Some ''/Documents/a.txt'', Some 9) \<and>
   objGet (items (fst (removeItem 9 docsStore ''/Documents'' True))) ''/Documents/a.txt'' = None \<and>
   snd (removeItem 9 docsStore ''/Documents'' True) = None"
  using removeItem_contract[of docsStore "''/Documents''" "blankItem ''/Documents'' ''Documents'' True" 9 False]
    removeItem_contract[of docsStore "''/Documents''" "blankItem ''/Documents'' ''Documents'' True" 9 True]
  by (simp add: docsStore_def exampleFile_def blankItem_def objGet_def underPath_def
      startsWith_def trashMark_def)


text \<open>
  Claim C4 (trash round-trip, P4): let \<open>it\<close> be an active item stored under its own,
  non-empty path \<open>p\<close>. After \<open>moveToTrash\<close> and then \<open>restoreFromTrash\<close> the path holds
  an item that agrees with \<open>it\<close> in every field except possibly \<open>originalPath\<close> and
  \<open>deletedAt\<close> (so path, name, uuid, type, size, \<open>isDirectory\<close>, the timestamps and the
  active status are those of \<open>it\<close>). When \<open>p\<close> is neither \<open>/\<close> nor \<open>/Trash\<close>, which
  \<open>moveToTrash\<close> refuses, the item was trashed in between, with \<open>originalPath = p\<close>, and
  ends with \<open>originalPath\<close> and \<open>deletedAt\<close> cleared.
\<close>

theorem trash_round_trip:
  assumes "objGet (items state) p = Some it" "path it = p" "status it = Active" "p \<noteq> []"
  shows "\<exists>r. objGet (items (restoreFromTrash (moveToTrash n state it) p)) p = Some r \<and>
             r\<lparr>originalPath := None, deletedAt := None\<rparr> =
               it\<lparr>originalPath := None, deletedAt := None\<rparr> \<and>
             (p \<noteq> ''/'' \<and> p \<noteq> ''/Trash'' \<longrightarrow>
                objGet (items (moveToTrash n state it)) p =
                  Some (it\<lparr>status := Trashed, originalPath := Some p, deletedAt := Some n\<rparr>) \<and>
                originalPath r = None \<and> deletedAt r = None)"
proof (cases "p = ''/'' \<or> p = ''/Trash''")
  case True
  then have m: "moveToTrash n state it = state" using assms by (auto simp: moveToTrash_def)
  have "restoreFromTrash state p = state"
    using assms by (simp add: restoreFromTrash_def getItem_def)
  then show ?thesis using True assms m by auto
next
  case False
  define mid where "mid = moveToTrash n state it"
  have soft: "\<not> False \<and> status it = Active" using assms by simp
  have midp: "objGet (items mid) p = Some (trashMark n p it)"
    using removeItem_soft_lookup[OF assms(1), of False n p] assms False
    by (simp add: mid_def moveToTrash_def underPath_def)
  have tm: "trashMark n p it = it\<lparr>status := Trashed, originalPath := Some p, deletedAt := Some n\<rparr>"
    using assms by (simp add: trashMark_def)
  have st: "status (trashMark n p it) = Trashed" "path (trashMark n p it) = p"
    "truthyStr (originalPath (trashMark n p it))" "isDirectory (trashMark n p it) = isDirectory it"
    using assms by (simp_all add: tm truthyStr_def)
  have r1: "restoreFromTrash mid p = restoreItem mid p"
    using midp st by (simp add: restoreFromTrash_def getItem_def)
  have r2: "objGet (items (restoreItem mid p)) p = Some (restoreMark (trashMark n p it))"
    using False
    by (simp add: restoreItem_unfold[OF midp st(1)] objGet_updateTrashIcon
        restoreItem_lookup[OF midp] underPath_def midp)
  show ?thesis
    using r2 midp assms False
    by (simp add: mid_def[symmetric] r1 restoreMark_trashMark) (simp add: tm)
qed



theorem trash_round_trip_witness:
  "objGet (items docsStore) ''/Documents/a.txt'' = Some exampleFile \<and>
   path exampleFile = ''/Documents/a.txt'' \<and> status exampleFile = Active \<and>
   map_option status
     (objGet (items (moveToTrash 9 docsStore exampleFile)) ''/Documents/a.txt'') = Some Trashed \<and>
   objGet (items (restoreFromTrash (moveToTrash 9 docsStore exampleFile) ''/Documents/a.txt''))
     ''/Documents/a.txt'' = Some exampleFile"
  using trash_round_trip[of docsStore "''/Documents/a.txt''" exampleFile 9]
  by (simp add: docsStore_def exampleFile_def blankItem_def objGet_def moveToTrash_def
      restoreFromTrash_def removeItem_def restoreItem_def removeTargets_def restoreTargets_def
      removeStep_def restoreStep_def updateTrashIcon_def objValues_def getItem_def
      truthyStr_def Let_def)


text \<open>
  What \<open>moveItem\<close> does, for every state. In each of the four failures of
  \<open>moveRejected\<close> it returns \<open>false\<close> and the very state it was given. Otherwise it
  returns \<open>true\<close>, the library state stays, the destination holds the source item with
  its \<open>path\<close> rewritten, and every path that is neither source nor destination nor
  under either of them is as before. For a source that is not a directory the source
  path is gone and every other path is as before. For a directory whose destination
  has nothing stored under it, the source path is gone and every item under
  \<open>src + "/"\<close> is found under \<open>dst + "/"\<close> with the same relative suffix and its \<open>path\<close>
  rewritten, its old path being gone.
\<close>

lemma moveItem_behaviour:
  "(moveRejected state src dst \<longrightarrow> moveItem state src dst = (state, False)) \<and>
   (\<not> moveRejected state src dst \<longrightarrow>
      snd (moveItem state src dst) = True \<and>
      libraryState (fst (moveItem state src dst)) = libraryState state \<and>
      (\<exists>s. objGet (items state) src = Some s \<and>
           objGet (items (fst (moveItem state src dst))) dst = Some (s\<lparr>path := dst\<rparr>) \<and>
           (\<not> isDirectory s \<longrightarrow> objGet (items (fst (moveItem state src dst))) src = None \<and>
              (\<forall>q. q \<noteq> src \<and> q \<noteq> dst \<longrightarrow>
                 objGet (items (fst (moveItem state src dst))) q = objGet (items state) q)) \<and>
           (isDirectory s \<and> (\<forall>k\<in>set (objKeys (items state)). \<not> startsWith k (dst @ ''/'')) \<longrightarrow>
              objGet (items (fst (moveItem state src dst))) src = None \<and>
              (\<forall>r. objGet (items (fst (moveItem state src dst))) (dst @ CHR ''/'' # r) =
                     map_option (\<lambda>c. c\<lparr>path := dst @ CHR ''/'' # r\<rparr>)
                       (objGet (items state) (src @ CHR ''/'' # r)) \<and>
                   (objGet (items state) (src @ CHR ''/'' # r) \<noteq> None \<longrightarrow>
                      objGet (items (fst (moveItem state src dst))) (src @ CHR ''/'' # r) = None)))) \<and>
      (\<forall>q. q \<noteq> src \<and> q \<noteq> dst \<and> \<not> startsWith q (src @ ''/'') \<and> \<not> startsWith q (dst @ ''/'') \<longrightarrow>
         objGet (items (fst (moveItem state src dst))) q = objGet (items state) q))"
proof (cases "moveRejected state src dst")
  case True
  then show ?thesis by (simp add: moveItem_rejected)
next
  case False
  from moveItem_accepted[OF False] obtain s where s: "objGet (items state) src = Some s"
    "status s = Active" "objGet (items state) dst = None"
    and eq: "moveItem state src dst =
               (state\<lparr>items :=
                  (if isDirectory s
                   then fold (moveChild (items state) src dst) (objKeys (items state))
                          (objSet dst (s\<lparr>path := dst\<rparr>) (objDelete src (items state)))
                   else objSet dst (s\<lparr>path := dst\<rparr>) (objDelete src (items state)))\<rparr>, True)"
    by blast
  define base where "base = objSet dst (s\<lparr>path := dst\<rparr>) (objDelete src (items state))"
  have ne: "src \<noteq> dst" using s by auto
  have b1: "objGet base dst = Some (s\<lparr>path := dst\<rparr>)" by (simp add: base_def objGet_objSet)
  have b2: "objGet base src = None" using ne by (simp add: base_def objGet_objSet objGet_objDelete)
  have b3: "\<And>q. q \<noteq> src \<Longrightarrow> q \<noteq> dst \<Longrightarrow> objGet base q = objGet (items state) q"
    by (simp add: base_def objGet_objSet objGet_objDelete)
  have f1: "objGet (fold (moveChild (items state) src dst) ks base) dst = Some (s\<lparr>path := dst\<rparr>)" for ks
    by (rule fold_invariant) (simp_all add: b1 moveChild_dst[OF s(3)])
  have f2: "objGet (fold (moveChild (items state) src dst) ks base) q = objGet (items state) q"
    if "q \<noteq> src" "q \<noteq> dst" "\<not> startsWith q (src @ ''/'')" "\<not> startsWith q (dst @ ''/'')" for ks q
    by (rule fold_invariant) (simp_all add: b3 that moveChild_other)
  have basic: "snd (moveItem state src dst) = True \<and>
      libraryState (fst (moveItem state src dst)) = libraryState state \<and>
      objGet (items (fst (moveItem state src dst))) dst = Some (s\<lparr>path := dst\<rparr>) \<and>
      (\<not> isDirectory s \<longrightarrow> objGet (items (fst (moveItem state src dst))) src = None \<and>
              (\<forall>q. q \<noteq> src \<and> q \<noteq> dst \<longrightarrow>
                 objGet (items (fst (moveItem state src dst))) q = objGet (items state) q)) \<and>
      (\<forall>q. q \<noteq> src \<and> q \<noteq> dst \<and> \<not> startsWith q (src @ ''/'') \<and> \<not> startsWith q (dst @ ''/'') \<longrightarrow>
         objGet (items (fst (moveItem state src dst))) q = objGet (items state) q)"
    using b1 b2 b3 f1 f2 by (simp add: eq base_def[symmetric])
  have dir: "objGet (items (fst (moveItem state src dst))) src = None \<and>
              (\<forall>r. objGet (items (fst (moveItem state src dst))) (dst @ CHR ''/'' # r) =
                     map_option (\<lambda>c. c\<lparr>path := dst @ CHR ''/'' # r\<rparr>)
                       (objGet (items state) (src @ CHR ''/'' # r)) \<and>
                   (objGet (items state) (src @ CHR ''/'' # r) \<noteq> None \<longrightarrow>
                      objGet (items (fst (moveItem state src dst))) (src @ CHR ''/'' # r) = None))"
    if "isDirectory s \<and> (\<forall>k\<in>set (objKeys (items state)). \<not> startsWith k (dst @ ''/''))"
    using moveItem_children[OF False s(1)] that by blast
  show ?thesis using False s(1) basic dir by blast
qed

lemma moveItem_behaviour_example:
  "\<not> moveRejected docsStore ''/Documents/a.txt'' ''/Desktop/a.txt'' \<and>
   snd (moveItem docsStore ''/Documents/a.txt'' ''/Desktop/a.txt'') = True \<and>
   map_option (\<lambda>c. (path c, uuid c))
     (objGet (items (fst (moveItem docsStore ''/Documents/a.txt'' ''/Desktop/a.txt''))) ''/Desktop/a.txt'') =
     Some (''/Desktop/a.txt'', Some ''u1'') \<and>
   objGet (items (fst (moveItem docsStore ''/Documents/a.txt'' ''/Desktop/a.txt''))) ''/Documents/a.txt'' = None \<and>
   moveRejected docsStore ''/Documents/a.txt'' ''/Nowhere/a.txt'' \<and>
   moveItem docsStore ''/Documents/a.txt'' ''/Nowhere/a.txt'' = (docsStore, False)"
  using moveItem_behaviour[of docsStore "''/Documents/a.txt''" "''/Desktop/a.txt''"]
    moveItem_behaviour[of docsStore "''/Documents/a.txt''" "''/Nowhere/a.txt''"]
  by (auto simp add: moveRejected_def docsStore_def exampleFile_def blankItem_def objGet_def
      getParentPath_def)

lemma nestedStore_move_not_rejected: "\<not> moveRejected nestedStore ''/a/a'' ''/a''"
  by code_simp

text \<open>
  Claim C6: \<open>moveItem\<close> returns \<open>false\<close> and leaves the items unchanged in the four
  failures the claim lists, and otherwise performs the move and returns \<open>true\<close>. The
  first half holds for every state, and so does the second for a source that is not a
  directory and for a directory with nothing stored under the destination
  (\<open>moveItem_behaviour\<close>). The second half breaks at \<open>nestedStore\<close>. Moving \<open>/a/a\<close> to
  \<open>/a\<close> meets none of the four failures: the source is an active directory, the parent
  \<open>/\<close> of the destination is a directory, nothing is stored at \<open>/a\<close>, and \<open>/a\<close> is not
  inside \<open>/a/a\<close>. \<open>moveItem\<close> returns \<open>true\<close>, but the move is not performed for the
  file \<open>u1\<close> stored at \<open>/a/a/a/x\<close>: nothing is stored at \<open>/a/a/x\<close>, where the move takes
  it, no item of the result has the uuid \<open>u1\<close>, and of the five items four are left.
\<close>

theorem moveItem_accepted_but_incomplete:
  "map_option (\<lambda>s. (status s, isDirectory s)) (objGet (items nestedStore) ''/a/a'') =
     Some (Active, True) \<and>
   getParentPath ''/a'' = ''/'' \<and>
   map_option isDirectory (objGet (items nestedStore) ''/'') = Some True \<and>
   objGet (items nestedStore) ''/a'' = None \<and>
   \<not> startsWith ''/a'' (''/a/a'' @ ''/'') \<and>
   map_option uuid (objGet (items nestedStore) ''/a/a/a/x'') = Some (Some ''u1'') \<and>
   snd (moveItem nestedStore ''/a/a'' ''/a'') = True \<and>
   objGet (items (fst (moveItem nestedStore ''/a/a'' ''/a''))) ''/a/a/x'' = None \<and>
   filter (\<lambda>(k, v). uuid v = Some ''u1'') (items (fst (moveItem nestedStore ''/a/a'' ''/a''))) = [] \<and>
   length (items nestedStore) = 5 \<and>
   length (items (fst (moveItem nestedStore ''/a/a'' ''/a''))) = 4"
  by code_simp



text \<open>
  Claim C3 says that \<open>createAlias\<close> de-duplicates with the suffixes \<open>" 2"\<close>, \<open>" 3"\<close>, ...,
  so that the second of two calls with the name \<open>a.txt\<close> creates \<open>/Desktop/a 2.txt\<close>. The
  counter of the source starts at 1 (\<open>let counter = 1\<close>): the second call creates
  \<open>/Desktop/a 1.txt\<close>, and nothing is stored at \<open>/Desktop/a 2.txt\<close>.
\<close>

theorem createAlias_suffix_counterexample:
  "map fst (items (createAlias 8
      (createAlias 7 docsStore ''/Documents/a.txt'' ''a.txt'' FileAlias None)
      ''/Documents/a.txt'' ''a.txt'' FileAlias None)) =
     [''/'', ''/Documents'', ''/Documents/a.txt'', ''/Desktop'', ''/Trash'',
      ''/Desktop/a.txt'', ''/Desktop/a 1.txt''] \<and>
   objGet (items (createAlias 8
      (createAlias 7 docsStore ''/Documents/a.txt'' ''a.txt'' FileAlias None)
      ''/Documents/a.txt'' ''a.txt'' FileAlias None)) ''/Desktop/a 2.txt'' = None"
  by code_simp


text \<open>
  Claim C3, amended. Without a directory at \<open>/Desktop\<close>, \<open>createAlias\<close> changes nothing.
  With one, it resolves a name \<open>nm\<close> (the given one, or the name of the target when
  none is given) and tests \<open>/Desktop/nm\<close> and then the candidates with \<open>" 1"\<close>, \<open>" 2"\<close>, ...
  before the extension, in this order: every path tested before the chosen one holds
  an active item, the chosen one does not. Whatever the chosen path held (nothing, or
  a trashed item) is replaced by the new alias: an active file item under \<open>/Desktop/\<close>
  with the given alias type, pointing at the target. Every other path is as before.
\<close>

theorem createAlias_contract:
  "((case objGet (items state) ''/Desktop'' of None \<Rightarrow> True | Some d \<Rightarrow> \<not> isDirectory d) \<longrightarrow>
      createAlias n state target aliasName ty app = state) \<and>
   ((case objGet (items state) ''/Desktop'' of None \<Rightarrow> False | Some d \<Rightarrow> isDirectory d) \<longrightarrow>
      (\<exists>nm k.
         (nm = aliasName \<or> (\<exists>orig. objGet (items state) target = Some orig \<and> nm = name orig)) \<and>
         startsWith (triedPath nm k) ''/Desktop/'' \<and>
         (\<forall>j<k. isActiveAtPath (items state) (triedPath nm j)) \<and>
         \<not> isActiveAtPath (items state) (triedPath nm k) \<and>
         (\<exists>a. objGet (items (createAlias n state target aliasName ty app)) (triedPath nm k) = Some a \<and>
              path a = triedPath nm k \<and> status a = Active \<and> \<not> isDirectory a \<and>
              aliasType a = Some ty \<and>
              aliasTarget a = (if ty = AppAlias \<and> truthyStr app then app else Some target) \<and>
              FileSystemItem.createdAt a = Some n \<and> modifiedAt a = Some n) \<and>
         (\<forall>q. q \<noteq> triedPath nm k \<longrightarrow>
            objGet (items (createAlias n state target aliasName ty app)) q =
              objGet (items state) q)))"
proof (cases "objGet (items state) ''/Desktop''")
  case None
  then show ?thesis by (simp add: createAlias_def)
next
  case (Some d)
  show ?thesis
  proof (cases "isDirectory d")
    case False
    then show ?thesis using Some by (simp add: createAlias_def)
  next
    case True
    define orig where "orig = (if ty = AppAlias \<and> truthyStr app then None
                               else objGet (items state) target)"
    define nm where "nm = createAlias_name orig aliasName"
    define freed where "freed =
       (case objGet (items state) (''/Desktop/'' @ nm) of None \<Rightarrow> items state
        | Some e \<Rightarrow> if status e = Trashed then objDelete (''/Desktop/'' @ nm) (items state)
                    else items state)"
    define final where "final = aliasLoop freed nm (''/Desktop/'' @ nm) 1"
    have eq: "createAlias n state target aliasName ty app =
        state\<lparr>items := objSet final (createAlias_item n final nm orig target ty app) freed\<rparr>"
      unfolding createAlias_def orig_def nm_def freed_def final_def Let_def
      by (simp only: Some option.case True not_True_eq_False if_False)
    from aliasLoop_from_one[of freed nm] obtain k where k:
      "final = triedPath nm k" "\<not> isActiveAtPath freed (triedPath nm k)"
      "\<forall>j<k. isActiveAtPath freed (triedPath nm j)"
      unfolding final_def by blast
    have act: "\<And>q. isActiveAtPath freed q = isActiveAtPath (items state) q"
      unfolding freed_def by (rule isActiveAtPath_freed)
    have nmc: "nm = aliasName \<or> (\<exists>o'. objGet (items state) target = Some o' \<and> nm = name o')"
      by (auto simp: nm_def orig_def createAlias_name_def split: option.splits if_splits)
    have other: "objGet freed q = objGet (items state) q" if "q \<noteq> triedPath nm k" for q
    proof (cases "k = 0")
      case True
      then show ?thesis using that unfolding freed_def
        by (intro objGet_freed) (simp add: triedPath_def)
    next
      case False
      then have "isActiveAtPath (items state) (triedPath nm 0)" using k(3) act by auto
      then show ?thesis unfolding freed_def
        by (intro objGet_freed) (simp add: triedPath_def)
    qed
    have main: "\<exists>nm k.
         (nm = aliasName \<or> (\<exists>orig. objGet (items state) target = Some orig \<and> nm = name orig)) \<and>
         startsWith (triedPath nm k) ''/Desktop/'' \<and>
         (\<forall>j<k. isActiveAtPath (items state) (triedPath nm j)) \<and>
         \<not> isActiveAtPath (items state) (triedPath nm k) \<and>
         (\<exists>a. objGet (items (createAlias n state target aliasName ty app)) (triedPath nm k) = Some a \<and>
              path a = triedPath nm k \<and> status a = Active \<and> \<not> isDirectory a \<and>
              aliasType a = Some ty \<and>
              aliasTarget a = (if ty = AppAlias \<and> truthyStr app then app else Some target) \<and>
              FileSystemItem.createdAt a = Some n \<and> modifiedAt a = Some n) \<and>
         (\<forall>q. q \<noteq> triedPath nm k \<longrightarrow>
            objGet (items (createAlias n state target aliasName ty app)) q =
              objGet (items state) q)"
      apply (rule exI[of _ nm], rule exI[of _ k])
      using nmc k act other
      by (simp add: eq objGet_objSet createAlias_item_fields triedPath_on_desktop)
    show ?thesis using Some True main by simp
  qed
qed




theorem createAlias_contract_witness:
  "(case objGet (items docsStore) ''/Desktop'' of None \<Rightarrow> False | Some d \<Rightarrow> isDirectory d) \<and>
   map_option (\<lambda>a. (path a, status a, aliasTarget a))
     (objGet (items (createAlias 7 docsStore ''/Documents/a.txt'' ''a.txt'' FileAlias None))
        ''/Desktop/a.txt'') =
     Some (''/Desktop/a.txt'', Active, Some ''/Documents/a.txt'') \<and>
   map_option (\<lambda>a. (status a, FileSystemItem.createdAt a))
     (objGet (items (createAlias 9
        (fst (removeItem 8
           (createAlias 7 docsStore ''/Documents/a.txt'' ''a.txt'' FileAlias None)
           ''/Desktop/a.txt'' False))
        ''/Documents/a.txt'' ''a.txt'' FileAlias None)) ''/Desktop/a.txt'') =
     Some (Active, Some 9) \<and>
   createAlias 7 emptyStore ''/Documents/a.txt'' ''a.txt'' FileAlias None = emptyStore"
proof -
  have computed:
    "(case objGet (items docsStore) ''/Desktop'' of None \<Rightarrow> False | Some d \<Rightarrow> isDirectory d) \<and>
     map_option (\<lambda>a. (path a, status a, aliasTarget a))
       (objGet (items (createAlias 7 docsStore ''/Documents/a.txt'' ''a.txt'' FileAlias None))
          ''/Desktop/a.txt'') =
       Some (''/Desktop/a.txt'', Active, Some ''/Documents/a.txt'') \<and>
     map_option (\<lambda>a. (status a, FileSystemItem.createdAt a))
       (objGet (items (createAlias 9
          (fst (removeItem 8
             (createAlias 7 docsStore ''/Documents/a.txt'' ''a.txt'' FileAlias None)
             ''/Desktop/a.txt'' False))
          ''/Documents/a.txt'' ''a.txt'' FileAlias None)) ''/Desktop/a.txt'') =
       Some (Active, Some 9)"
    by code_simp
  show ?thesis
    using createAlias_contract[of docsStore 7 "''/Documents/a.txt''" "''a.txt''" FileAlias None]
      createAlias_contract[of emptyStore 7 "''/Documents/a.txt''" "''a.txt''" FileAlias None]
      computed
    by (simp add: emptyStore_def objGet_def)
qed


section \<open>File system facade: alias resolution\<close>

declare resolveAlias.simps [simp del]

lemma resolve_cap:
  "\<not> depth < maxDepth \<Longrightarrow> resolveAlias fs ic cur vis depth = (MaxDepthReached, depth)"
  by (subst resolveAlias.simps) simp

lemma resolve_stop:
  "depth < maxDepth \<Longrightarrow> \<not> isAlias (getItem fs (path cur)) \<Longrightarrow>
   resolveAlias fs ic cur vis depth =
     (if depth + 1 \<ge> maxDepth then MaxDepthReached else Resolved cur, depth + 1)"
  by (subst resolveAlias.simps)
     (auto simp: isAlias_def truthyStr_def Let_def split: option.splits)

lemma resolve_visited:
  "depth < maxDepth \<Longrightarrow> isAlias (getItem fs (path cur)) \<Longrightarrow> path cur \<in> set vis \<Longrightarrow>
   resolveAlias fs ic cur vis depth = (CircularAliasDetected (path cur), depth + 1)"
  by (subst resolveAlias.simps)
     (auto simp: isAlias_def truthyStr_def Let_def split: option.splits)

lemma aliasHop_isAlias: "aliasHop fs p = Some q \<Longrightarrow> isAlias (getItem fs p)"
  by (auto simp: aliasHop_def isAlias_def truthyStr_def split: option.splits if_splits)

lemma resolve_hop:
  assumes "depth < maxDepth" "aliasHop fs (path cur) = Some q" "path cur \<notin> set vis"
  shows "\<exists>tf. path tf = q \<and>
           resolveAlias fs ic cur vis depth = resolveAlias fs ic tf (path cur # vis) (depth + 1)"
proof -
  from assms(2) obtain m target t where m: "getItem fs (path cur) = Some m"
    "aliasTarget m = Some target" "aliasType m = Some FileAlias" "target \<noteq> []"
    "getItem fs target = Some t" "path t = q"
    by (auto simp: aliasHop_def split: option.splits if_splits)
  have "resolveAlias fs ic cur vis depth =
          resolveAlias fs ic (t\<lparr>icon := Some (ic t)\<rparr>) (path cur # vis) (depth + 1)"
    using assms(1,3) m by (subst resolveAlias.simps) (simp add: Let_def)
  moreover have "path (t\<lparr>icon := Some (ic t)\<rparr>) = q" using m(6) by simp
  ultimately show ?thesis by blast
qed

lemma resolve_bound:
  "depth \<le> maxDepth \<Longrightarrow> snd (resolveAlias fs ic cur vis depth) \<le> maxDepth"
proof (induction fs ic cur vis depth rule: resolveAlias.induct)
  case (1 fs ic cur vis depth)
  show ?case
  proof (cases "depth < maxDepth")
    case False
    then show ?thesis using 1(2) by (simp add: resolve_cap)
  next
    case True
    then show ?thesis
      using 1
      by (subst resolveAlias.simps) (auto simp: Let_def split: option.splits)
  qed
qed

lemma resolve_chain:
  assumes "isChain fs ps" "distinct ps" "set ps \<inter> set vis = {}" "hd ps = path cur"
    "depth + length ps < maxDepth"
  shows "\<exists>r. resolveAlias fs ic cur vis depth = (Resolved r, depth + length ps) \<and>
             path r = last ps"
  using assms
proof (induction ps arbitrary: cur vis depth rule: isChain.induct)
  case (1 fs)
  then show ?case by simp
next
  case (2 fs p)
  then show ?case by (simp add: resolve_stop)
next
  case (3 fs p q ps)
  have d: "depth < maxDepth" using 3(6) by simp
  have hop: "aliasHop fs (path cur) = Some q" using 3(2,5) by simp
  have nv: "path cur \<notin> set vis" using 3(4,5) by auto
  from resolve_hop[OF d hop nv, of ic] obtain tf where tf: "path tf = q"
    "resolveAlias fs ic cur vis depth = resolveAlias fs ic tf (path cur # vis) (depth + 1)"
    by blast
  have "\<exists>r. resolveAlias fs ic tf (path cur # vis) (depth + 1) =
              (Resolved r, depth + 1 + length (q # ps)) \<and> path r = last (q # ps)"
    using 3(2,3,4,5,6) tf(1) by (intro 3(1)) auto
  then show ?case using tf(2) by simp
qed

lemma resolve_chain_capped:
  assumes "isChain fs ps" "distinct ps" "set ps \<inter> set vis = {}" "hd ps = path cur"
    "depth \<le> maxDepth" "maxDepth \<le> depth + length ps"
  shows "resolveAlias fs ic cur vis depth = (MaxDepthReached, maxDepth)"
  using assms
proof (induction ps arbitrary: cur vis depth rule: isChain.induct)
  case (1 fs)
  then show ?case by simp
next
  case (2 fs p)
  show ?case
  proof (cases "depth < maxDepth")
    case True
    then have "depth + 1 = maxDepth" using 2(6) by simp
    then show ?thesis using True 2(1,4) by (simp add: resolve_stop)
  next
    case False
    then show ?thesis using 2(5) by (simp add: resolve_cap)
  qed
next
  case (3 fs p q ps)
  show ?case
  proof (cases "depth < maxDepth")
    case False
    then show ?thesis using 3(6) by (simp add: resolve_cap)
  next
    case True
    have hop: "aliasHop fs (path cur) = Some q" using 3(2,5) by simp
    have nv: "path cur \<notin> set vis" using 3(4,5) by auto
    from resolve_hop[OF True hop nv, of ic] obtain tf where tf: "path tf = q"
      "resolveAlias fs ic cur vis depth = resolveAlias fs ic tf (path cur # vis) (depth + 1)"
      by blast
    have "resolveAlias fs ic tf (path cur # vis) (depth + 1) = (MaxDepthReached, maxDepth)"
      using 3(2,3,4,5,7) tf(1) True by (intro 3(1)) auto
    then show ?thesis using tf(2) by simp
  qed
qed

lemma resolve_cycle:
  assumes "\<forall>p\<in>set S. \<exists>q\<in>set S. aliasHop fs p = Some q" "path cur \<in> set S"
  shows "isRejection (fst (resolveAlias fs ic cur vis depth))"
  using assms(2)
proof (induction "maxDepth - depth" arbitrary: cur vis depth)
  case 0
  then show ?case by (simp add: resolve_cap)
next
  case (Suc n)
  then have d: "depth < maxDepth" by simp
  from assms(1) Suc(3) obtain q where q: "q \<in> set S" "aliasHop fs (path cur) = Some q" by blast
  show ?case
  proof (cases "path cur \<in> set vis")
    case True
    then show ?thesis using d q by (simp add: resolve_visited aliasHop_isAlias)
  next
    case False
    from resolve_hop[OF d q(2) False, of ic] obtain tf where tf: "path tf = q"
      "resolveAlias fs ic cur vis depth = resolveAlias fs ic tf (path cur # vis) (depth + 1)"
      by blast
    have "isRejection (fst (resolveAlias fs ic tf (path cur # vis) (depth + 1)))"
      using Suc(2) q(1) tf(1) by (intro Suc(1)) auto
    then show ?thesis using tf(2) by simp
  qed
qed

lemma rejection_no_calls: "isRejection out \<Longrightarrow> storeCalls out = []"
  by (cases out) simp_all

text \<open>
  Claim C8: alias resolution in \<open>handleFileOpen\<close> is finite. The function is total and
  never runs more than \<open>maxDepth\<close> iterations. A chain of \<open>n\<close> distinct paths (\<open>n - 1\<close>
  aliases and the file they lead to) with \<open>n\<close> below the bound is resolved to its last
  path in exactly \<open>n\<close> iterations; a chain of \<open>maxDepth\<close> or more paths ends in the
  max-depth warning after \<open>maxDepth\<close> iterations. If the path opened lies in a set of
  paths that alias hops never leave (a cycle, with or without a lead-in; a
  self-alias), the outcome is one of the two rejections, each a \<open>console.warn\<close>
  followed by \<open>return\<close>, and no store is called; the items map is only ever read.
\<close>

theorem alias_resolution_finite:
  "snd (handleFileOpen_resolve fs ic file) \<le> maxDepth \<and>
   (\<forall>ps. isChain fs ps \<and> distinct ps \<and> hd ps = path file \<and> length ps < maxDepth \<longrightarrow>
      (\<exists>r. handleFileOpen_resolve fs ic file = (Resolved r, length ps) \<and> path r = last ps)) \<and>
   (\<forall>ps. isChain fs ps \<and> distinct ps \<and> hd ps = path file \<and> maxDepth \<le> length ps \<longrightarrow>
      handleFileOpen_resolve fs ic file = (MaxDepthReached, maxDepth)) \<and>
   (\<forall>S. path file \<in> set S \<and> (\<forall>p\<in>set S. \<exists>q\<in>set S. aliasHop fs p = Some q) \<longrightarrow>
      isRejection (fst (handleFileOpen_resolve fs ic file)) \<and>
      storeCalls (fst (handleFileOpen_resolve fs ic file)) = [])"
proof -
  have a: "snd (handleFileOpen_resolve fs ic file) \<le> maxDepth"
    unfolding handleFileOpen_resolve_def by (rule resolve_bound) simp
  have b: "\<exists>r. handleFileOpen_resolve fs ic file = (Resolved r, length ps) \<and> path r = last ps"
    if "isChain fs ps \<and> distinct ps \<and> hd ps = path file \<and> length ps < maxDepth" for ps
    using resolve_chain[of fs ps "[]" "file" 0 ic] that
    by (simp add: handleFileOpen_resolve_def)
  have b': "handleFileOpen_resolve fs ic file = (MaxDepthReached, maxDepth)"
    if "isChain fs ps \<and> distinct ps \<and> hd ps = path file \<and> maxDepth \<le> length ps" for ps
    using resolve_chain_capped[of fs ps "[]" "file" 0 ic] that
    by (simp add: handleFileOpen_resolve_def)
  have c: "isRejection (fst (handleFileOpen_resolve fs ic file)) \<and>
      storeCalls (fst (handleFileOpen_resolve fs ic file)) = []"
    if "path file \<in> set S \<and> (\<forall>p\<in>set S. \<exists>q\<in>set S. aliasHop fs p = Some q)" for S
    using resolve_cycle[of S fs "file" ic "[]" 0] that
    by (simp add: handleFileOpen_resolve_def rejection_no_calls)
  show ?thesis using a b b' c by blast
qed


theorem alias_resolution_finite_witness:
  "isChain aliasStore [''/Desktop/x'', ''/Desktop/y'', ''/Documents/a.txt''] \<and>
   handleFileOpen_resolve aliasStore (\<lambda>_. ''/icons/file.png'') (blankItem ''/Desktop/x'' ''x'' False) =
     (Resolved (exampleFile\<lparr>icon := Some ''/icons/file.png''\<rparr>), 3) \<and>
   aliasHop aliasStore ''/Desktop/self'' = Some ''/Desktop/self'' \<and>
   handleFileOpen_resolve aliasStore (\<lambda>_. ''/icons/file.png'')
     (blankItem ''/Desktop/self'' ''self'' False) =
     (CircularAliasDetected ''/Desktop/self'', 2)"
proof -
  have computed:
    "isChain aliasStore [''/Desktop/x'', ''/Desktop/y'', ''/Documents/a.txt''] \<and>
     handleFileOpen_resolve aliasStore (\<lambda>_. ''/icons/file.png'')
       (blankItem ''/Desktop/x'' ''x'' False) =
       (Resolved (exampleFile\<lparr>icon := Some ''/icons/file.png''\<rparr>), 3) \<and>
     aliasHop aliasStore ''/Desktop/self'' = Some ''/Desktop/self'' \<and>
     handleFileOpen_resolve aliasStore (\<lambda>_. ''/icons/file.png'')
       (blankItem ''/Desktop/self'' ''self'' False) =
       (CircularAliasDetected ''/Desktop/self'', 2)"
    by code_simp
  show ?thesis
    using alias_resolution_finite[of aliasStore "\<lambda>_. ''/icons/file.png''"
        "blankItem ''/Desktop/x'' ''x'' False"]
      alias_resolution_finite[of aliasStore "\<lambda>_. ''/icons/file.png''"
        "blankItem ''/Desktop/self'' ''self'' False"]
      computed
    by blast
qed


section \<open>Metadata store: descendant consistency\<close>

text \<open>
  What the four directory operations do to the paths under the directory. Trashing
  and restoring reach every descendant. Renaming and moving rewrite every descendant
  with the same relative suffix when nothing is stored under the new path
  (\<open>renameItem_relocates\<close>, \<open>moveItem_relocates\<close>).
\<close>

lemma trash_reaches_descendants:
  assumes "objGet (items state) p = Some it" "isDirectory it" "status it = Active"
    and "startsWith q (p @ ''/'')" "objGet (items state) q = Some c" "q \<noteq> ''/Trash''"
  shows "objGet (items (fst (removeItem n state p False))) q = Some (trashMark n q c) \<and>
         status (trashMark n q c) = Trashed"
  using assms removeItem_soft_lookup[OF assms(1), of False n q]
  by (cases "status c") (simp_all add: underPath_def trashMark_def)

lemma restore_reaches_descendants:
  assumes "objGet (items state) p = Some it" "isDirectory it" "status it = Trashed"
    and "startsWith q (p @ ''/'')" "objGet (items state) q = Some c" "q \<noteq> ''/Trash''"
  shows "objGet (items (restoreItem state p)) q = Some (restoreMark c) \<and>
         status (restoreMark c) = Active"
  using assms
  by (cases "status c")
     (simp_all add: restoreItem_unfold[OF assms(1,3)] objGet_updateTrashIcon
        restoreItem_lookup[OF assms(1)] underPath_def restoreMark_def)

text \<open>
  Claim C5 (descendant consistency, P2): moving a directory applies the same
  relative-suffix rewrite to every item under it. The code breaks it when a rewritten
  path of one child is the old path of another. In \<open>nestedStore\<close> the directory \<open>/a/a\<close>
  holds \<open>/a/a/a\<close>, \<open>/a/a/a/x\<close> (uuid \<open>u1\<close>) and \<open>/a/a/x\<close> (uuid \<open>u2\<close>). \<open>moveItem\<close> to
  \<open>/a\<close> is accepted and returns \<open>true\<close>. The loop writes the first file to \<open>/a/a/x\<close>
  and then, handling the second file, deletes \<open>newItems["/a/a/x"]\<close>: the file \<open>u1\<close>,
  which belongs at \<open>/a/a/x\<close>, is in the store no more.
\<close>

theorem moveItem_loses_descendant:
  "map (\<lambda>(k, v). (k, uuid v)) (items nestedStore) =
     [(''/'', None), (''/a/a'', None), (''/a/a/a'', None),
      (''/a/a/a/x'', Some ''u1''), (''/a/a/x'', Some ''u2'')] \<and>
   snd (moveItem nestedStore ''/a/a'' ''/a'') = True \<and>
   map (\<lambda>(k, v). (k, uuid v)) (items (fst (moveItem nestedStore ''/a/a'' ''/a''))) =
     [(''/'', None), (''/a'', None), (''/a/a'', None), (''/a/x'', Some ''u2'')]"
  by code_simp

end
